theory Spec2Isabelle
  imports Main "HOL-Library.AList" "HOL-Library.Word"
begin

section \<open>JavaScript values and strings\<close>

text \<open>
  Wire records are JSON values. Numbers are modelled as integers (tab ids, lengths,
  timestamps in milliseconds); non-integral doubles are outside the model. A JavaScript
  object is an association list with distinct keys, \<open>JUndefined\<close> is the value of a
  missing property.
\<close>

datatype jsval =
    JUndefined
  | JNull
  | JBool bool
  | JNum int
  | JStr string
  | JArr "jsval list"
  | JObj "(string \<times> jsval) list"

text \<open>Property read \<open>v.k\<close> (optional chaining \<open>v?.k\<close> agrees with it on every value that is not
  null or undefined, and yields undefined there).\<close>

fun js_get :: "jsval \<Rightarrow> string \<Rightarrow> jsval" where
  "js_get (JObj kvs) k = (case map_of kvs k of Some v \<Rightarrow> v | None \<Rightarrow> JUndefined)"
| "js_get _ k = JUndefined"

text \<open>The operator \<open>'k' in v\<close> on an object.\<close>

fun js_has :: "jsval \<Rightarrow> string \<Rightarrow> bool" where
  "js_has (JObj kvs) k = (map_of kvs k \<noteq> None)"
| "js_has _ k = False"

text \<open>Truthiness, as tested by \<open>if (v)\<close> and \<open>!v\<close>.\<close>

fun truthy :: "jsval \<Rightarrow> bool" where
  "truthy JUndefined = False"
| "truthy JNull = False"
| "truthy (JBool b) = b"
| "truthy (JNum n) = (n \<noteq> 0)"
| "truthy (JStr s) = (s \<noteq> [])"
| "truthy (JArr _) = True"
| "truthy (JObj _) = True"

definition orElse :: "jsval \<Rightarrow> jsval \<Rightarrow> jsval" where
  \<comment> \<open>the operator \<open>v ?? d\<close>\<close>
  "orElse v d = (if v = JUndefined \<or> v = JNull then d else v)"

text \<open>\<open>typeof v === 'string' ? v : null\<close>\<close>

fun asString :: "jsval \<Rightarrow> string option" where
  "asString (JStr s) = Some s"
| "asString _ = None"

fun isNumber :: "jsval \<Rightarrow> bool" where
  "isNumber (JNum _) = True"
| "isNumber _ = False"

text \<open>\<open>typeof v === 'object'\<close>: objects, arrays and null.\<close>

fun isObjectType :: "jsval \<Rightarrow> bool" where
  "isObjectType (JObj _) = True"
| "isObjectType (JArr _) = True"
| "isObjectType JNull = True"
| "isObjectType _ = False"

text \<open>Decimal rendering of numbers, as in template strings.\<close>

definition digitChar :: "nat \<Rightarrow> char" where
  "digitChar d = ''0123456789'' ! d"

fun showNat :: "nat \<Rightarrow> string" where
  "showNat n = (if n < 10 then [digitChar n] else showNat (n div 10) @ [digitChar (n mod 10)])"

definition showInt :: "int \<Rightarrow> string" where
  "showInt i = (if i < 0 then CHR ''-'' # showNat (nat (- i)) else showNat (nat i))"

fun joinWith :: "string \<Rightarrow> string list \<Rightarrow> string" where
  "joinWith sep [] = []"
| "joinWith sep [x] = x"
| "joinWith sep (x # y # ys) = x @ sep @ joinWith sep (y # ys)"

text \<open>\<open>String(v)\<close> and template interpolation \<open>${v}\<close>. Inside an array, null and undefined
  render as the empty string.\<close>

fun js_String :: "jsval \<Rightarrow> string" where
  "js_String JUndefined = ''undefined''"
| "js_String JNull = ''null''"
| "js_String (JBool b) = (if b then ''true'' else ''false'')"
| "js_String (JNum n) = showInt n"
| "js_String (JStr s) = s"
| "js_String (JArr xs) =
     joinWith '','' (map (\<lambda>x. if x = JUndefined \<or> x = JNull then [] else js_String x) xs)"
| "js_String (JObj _) = ''[object Object]''"

text \<open>\<open>s.startsWith(p)\<close> and \<open>s.includes(p)\<close>.\<close>

fun startsWith :: "string \<Rightarrow> string \<Rightarrow> bool" where
  "startsWith s [] = True"
| "startsWith [] (p # ps) = False"
| "startsWith (c # cs) (p # ps) = (c = p \<and> startsWith cs ps)"

fun str_includes :: "string \<Rightarrow> string \<Rightarrow> bool" where
  "str_includes [] p = (p = [])"
| "str_includes (c # cs) p = (startsWith (c # cs) p \<or> str_includes cs p)"


section \<open>Agent sessions (agent-session.ts)\<close>

datatype session_status = Active | Idle | Disconnected

record AgentSessionInfo =
  agentId :: string
  sessionToken :: string
  agentName :: string
  status :: session_status
  lastActivity :: int
  createdAt :: int

text \<open>The module-level \<open>Map\<close> of sessions, in insertion order: \<open>Map.set\<close> is
  \<open>AList.update\<close> (an existing key keeps its place, a new one goes last), \<open>Map.delete\<close> is
  \<open>AList.delete\<close>.\<close>

type_synonym session_table = "(string \<times> AgentSessionInfo) list"

text \<open>\<open>createSession\<close>: \<open>now\<close> is the reading of \<open>Date.now()\<close>, \<open>uuid\<close> the value
  \<open>randomUUID()\<close> would return. The existing entry is mutated in place and returned.\<close>

definition createSession ::
  "int \<Rightarrow> string \<Rightarrow> string \<Rightarrow> string option \<Rightarrow> session_table
     \<Rightarrow> AgentSessionInfo \<times> session_table" where
  "createSession now uuid aid aname sessions =
     (case map_of sessions aid of
        Some existing \<Rightarrow>
          (let e = existing\<lparr>lastActivity := now, status := Active\<rparr>
           in (e, AList.update aid e sessions))
      | None \<Rightarrow>
          (let session = \<lparr>agentId = aid, sessionToken = uuid,
                           agentName = (case aname of None \<Rightarrow> aid | Some n \<Rightarrow> n),
                           status = Active, lastActivity = now, createdAt = now\<rparr>
           in (session, AList.update aid session sessions)))"

definition touchSession :: "int \<Rightarrow> string \<Rightarrow> session_table \<Rightarrow> session_table" where
  "touchSession now aid sessions =
     (case map_of sessions aid of
        Some session \<Rightarrow> AList.update aid (session\<lparr>lastActivity := now\<rparr>) sessions
      | None \<Rightarrow> sessions)"

definition closeSession :: "string \<Rightarrow> session_table \<Rightarrow> session_table" where
  "closeSession aid sessions = AList.delete aid sessions"

text \<open>\<open>getDefaultAgentId\<close>: the first active session in insertion order, else a session
  created for the configured default agent id.\<close>

definition getDefaultAgentId ::
  "int \<Rightarrow> string \<Rightarrow> string \<Rightarrow> session_table \<Rightarrow> string \<times> session_table" where
  "getDefaultAgentId now uuid configuredDefaultAgentId sessions =
     (case find (\<lambda>s. status s = Active) (map snd sessions) of
        Some active \<Rightarrow> (agentId active, sessions)
      | None \<Rightarrow>
          (let (defaultSession, sessions') =
                 createSession now uuid configuredDefaultAgentId None sessions
           in (agentId defaultSession, sessions')))"


section \<open>Tab locks (tab-manager.ts)\<close>

record TabLockInfo =
  lock_tabId :: int
  lock_agentId :: string
  acquiredAt :: int
  ttl :: int

type_synonym lock_table = "int \<rightharpoonup> TabLockInfo"

text \<open>\<open>acquireTabLock(agentId, tabId, ttl = 60_000)\<close>, with \<open>now\<close> the reading of \<open>Date.now()\<close>
  during the call. The result is the returned boolean and the lock table afterwards.\<close>

definition acquireTabLock ::
  "int \<Rightarrow> string \<Rightarrow> int \<Rightarrow> int \<Rightarrow> lock_table \<Rightarrow> bool \<times> lock_table" where
  "acquireTabLock now aid tab ttl0 tabLocks =
     (let fresh = \<lparr>lock_tabId = tab, lock_agentId = aid, acquiredAt = now, ttl = ttl0\<rparr>
      in case tabLocks tab of
           Some existing \<Rightarrow>
             if now - acquiredAt existing > ttl existing
               then (True, (tabLocks(tab := None))(tab \<mapsto> fresh))
             else if lock_agentId existing \<noteq> aid then (False, tabLocks)
             else (True, tabLocks(tab \<mapsto> existing\<lparr>acquiredAt := now\<rparr>))
         | None \<Rightarrow> (True, tabLocks(tab \<mapsto> fresh)))"

definition DEFAULT_TTL :: int where
  "DEFAULT_TTL = 60000"

definition releaseTabLock :: "string \<Rightarrow> int \<Rightarrow> lock_table \<Rightarrow> lock_table" where
  "releaseTabLock aid tab tabLocks =
     (case tabLocks tab of
        Some lock \<Rightarrow> if lock_agentId lock = aid then tabLocks(tab := None) else tabLocks
      | None \<Rightarrow> tabLocks)"


section \<open>Agent tab groups (tab-manager.ts)\<close>

record AgentTabGroup =
  grp_agentId :: string
  grp_agentName :: string
  groupId :: int
  color :: string
  tabs :: "int set"

type_synonym group_table = "string \<rightharpoonup> AgentTabGroup"

text \<open>\<open>isTabInAgentGroup\<close>: \<open>group?.tabs.has(tabId) ?? false\<close>. The set holds numbers, so a
  tab id that is not a number is never a member.\<close>

definition isTabInAgentGroup :: "group_table \<Rightarrow> string \<Rightarrow> jsval \<Rightarrow> bool" where
  "isTabInAgentGroup agentGroups aid tabId =
     (case agentGroups aid of
        None \<Rightarrow> False
      | Some g \<Rightarrow> (case tabId of JNum n \<Rightarrow> n \<in> tabs g | _ \<Rightarrow> False))"


section \<open>Tool dispatch in the extension worker (tool-handlers.ts)\<close>

datatype ToolResult = Success jsval | Failure string string

text \<open>\<open>REF_PATTERN = /^(find_|page_)?ref_\d+$/\<close>\<close>

definition isDigit :: "char \<Rightarrow> bool" where
  "isDigit c = (c \<in> set ''0123456789'')"

definition matchRefDigits :: "string \<Rightarrow> bool" where
  "matchRefDigits s = (startsWith s ''ref_'' \<and> drop 4 s \<noteq> [] \<and> list_all isDigit (drop 4 s))"

definition REF_PATTERN_test :: "string \<Rightarrow> bool" where
  "REF_PATTERN_test s =
     (matchRefDigits s
      \<or> (startsWith s ''find_'' \<and> matchRefDigits (drop 5 s))
      \<or> (startsWith s ''page_'' \<and> matchRefDigits (drop 5 s)))"

text \<open>\<open>sanitizeRef\<close>: \<open>Inl\<close> is the message of the thrown \<open>Error\<close>. The argument is whatever the
  input carries; \<open>RegExp.test\<close> and the template string both convert it with \<open>String\<close>.\<close>

definition invalidRefMessage :: "jsval \<Rightarrow> string" where
  "invalidRefMessage ref = ''Invalid element ref format: '' @ js_String ref"

definition sanitizeRef :: "jsval \<Rightarrow> string + jsval" where
  "sanitizeRef ref =
     (if \<not> REF_PATTERN_test (js_String ref) then Inl (invalidRefMessage ref)
      else Inr ref)"

definition accessDeniedMessage :: "jsval \<Rightarrow> string \<Rightarrow> string" where
  "accessDeniedMessage tabId aid =
     ''Tab '' @ js_String tabId @ '' does not belong to agent '' @ aid"

definition tabAccessCheck :: "group_table \<Rightarrow> string \<Rightarrow> jsval \<Rightarrow> string option" where
  "tabAccessCheck agentGroups aid tabId =
     (if \<not> isTabInAgentGroup agentGroups aid tabId then Some (accessDeniedMessage tabId aid)
      else None)"

definition CDP_TOOLS :: "string list" where
  "CDP_TOOLS =
     [''click'', ''type'', ''key'', ''scroll'', ''hover'', ''drag'', ''javascript_exec'',
      ''screenshot'', ''read_page'', ''find'', ''form_input'', ''get_page_text'',
      ''handle_dialog'', ''read_console_messages'', ''read_network_requests'',
      ''resize_window'', ''gif_creator'', ''artifact_from_page'', ''page_data_extract'']"

definition inferErrorCode :: "string \<Rightarrow> string" where
  "inferErrorCode message =
     (if str_includes message ''does not belong to agent'' then ''TAB_ACCESS_DENIED''
      else if str_includes message ''not found'' \<or> str_includes message ''No tab''
        then ''TAB_NOT_FOUND''
      else if str_includes message ''attach failed'' then ''DEBUGGER_ATTACH_FAILED''
      else if str_includes message ''CDP error'' then ''CDP_ERROR''
      else if str_includes message ''timed out'' then ''TIMEOUT''
      else if str_includes message ''Unknown tool'' then ''UNKNOWN_TOOL''
      else ''INTERNAL_ERROR'')"

text \<open>
  The browser is the environment of the worker. A handler reaches it through
  \<open>chrome.scripting.executeScript\<close> (a DOM call in the page of a tab), through
  \<open>sendCdpCommand\<close> (a debugger command) and through \<open>chrome.tabs.sendMessage\<close> (a request
  to the content script of a tab, recorded with its type and options). A call is recorded
  with its tab, the injected function or the CDP method, and for scripts the arguments; the
  parameter object of a CDP command is not recorded. The environment answers a call with
  the value awaited (for a script, \<open>result.result\<close> of the first frame) or with the message
  of a rejection.
\<close>

datatype browser_call =
    ExecuteScript jsval string "jsval list"
  | CdpCommand jsval string
  | TabsSendMessage jsval string jsval

type_synonym browser = "browser_call \<Rightarrow> string + jsval"

text \<open>What a handler did and how it ended: the browser calls it made, in order, and either
  the message of the error it threw or the object it returned.\<close>

type_synonym outcome = "browser_call list \<times> (string + jsval)"

text \<open>Run a list of awaited CDP commands, stopping at the first rejection.\<close>

fun sendAll :: "browser \<Rightarrow> browser_call list \<Rightarrow> browser_call list \<times> string option" where
  "sendAll br [] = ([], None)"
| "sendAll br (c # cs) =
     (case br c of
        Inl m \<Rightarrow> ([c], Some m)
      | Inr _ \<Rightarrow> (let (done, err) = sendAll br cs in (c # done, err)))"

text \<open>A script that answers with an object carrying a truthy \<open>error\<close> makes the handler
  throw \<open>String(error)\<close>; otherwise the handler returns the answer.\<close>

definition scriptByRef :: "browser \<Rightarrow> jsval \<Rightarrow> string \<Rightarrow> jsval list \<Rightarrow> outcome" where
  "scriptByRef br tabId func args =
     (let c = ExecuteScript tabId func args
      in case br c of
           Inl m \<Rightarrow> ([c], Inl m)
         | Inr r \<Rightarrow>
             if r \<noteq> JUndefined \<and> r \<noteq> JNull \<and> truthy (js_get r ''error'')
               then ([c], Inl (js_String (js_get r ''error'')))
             else ([c], Inr r))"

text \<open>Reading \<open>coord[0]\<close> throws a \<open>TypeError\<close> when \<open>coord\<close> is undefined or null.\<close>

definition indexable :: "jsval \<Rightarrow> bool" where
  "indexable v = (v \<noteq> JUndefined \<and> v \<noteq> JNull)"

definition typeErrorIndex :: "jsval \<Rightarrow> string" where
  "typeErrorIndex v = ''Cannot read properties of '' @ js_String v @ '' (reading '' @ [CHR 0x27] @ ''0'' @ [CHR 0x27] @ '')''"

text \<open>\<open>parseModifiers(modifiers)\<close> returns 0 for a falsy argument and calls
  \<open>modifiers.toLowerCase()\<close> otherwise, which throws on a value that is not a string. Only
  whether it throws matters to the dispatch: its bitmask goes into the parameters of the
  CDP command.\<close>

definition parseModifiersThrows :: "jsval \<Rightarrow> bool" where
  "parseModifiersThrows m = (truthy m \<and> asString m = None)"

definition handleClick :: "browser \<Rightarrow> group_table \<Rightarrow> string \<Rightarrow> jsval \<Rightarrow> outcome" where
  "handleClick br agentGroups aid input =
     (let tabId = js_get input ''tabId''
      in case tabAccessCheck agentGroups aid tabId of
           Some accessErr \<Rightarrow> ([], Inl accessErr)
         | None \<Rightarrow>
             if truthy (js_get input ''ref'') then
               (case sanitizeRef (js_get input ''ref'') of
                  Inl m \<Rightarrow> ([], Inl m)
                | Inr ref \<Rightarrow> scriptByRef br tabId ''click'' [ref])
             else
               (let coord = js_get input ''coordinate''
                in if parseModifiersThrows (js_get input ''modifiers'')
                     then ([], Inl ''modifiers.toLowerCase is not a function'')
                   else if \<not> indexable coord then ([], Inl (typeErrorIndex coord))
                   else
                     (case sendAll br [CdpCommand tabId ''Input.dispatchMouseEvent'',
                                       CdpCommand tabId ''Input.dispatchMouseEvent''] of
                        (done, Some m) \<Rightarrow> (done, Inl m)
                      | (done, None) \<Rightarrow>
                          (done, Inr (JObj [(''clicked'', JBool True), (''coordinate'', coord)])))))"

definition handleScroll :: "browser \<Rightarrow> group_table \<Rightarrow> string \<Rightarrow> jsval \<Rightarrow> outcome" where
  \<open>handleScroll br agentGroups aid input =
     (let tabId = js_get input ''tabId''
      in case tabAccessCheck agentGroups aid tabId of
           Some accessErr \<Rightarrow> ([], Inl accessErr)
         | None \<Rightarrow>
             if truthy (js_get input ''ref'') then
               (case sanitizeRef (js_get input ''ref'') of
                  Inl m \<Rightarrow> ([], Inl m)
                | Inr ref \<Rightarrow> scriptByRef br tabId ''scrollIntoView'' [ref])
             else
               (let coord = js_get input ''coordinate'';
                    direction = js_get input ''direction''
                in if \<not> truthy coord \<or> \<not> truthy direction
                     then ([], Inl ''Either "ref" or "coordinate" + "direction" must be provided'')
                   else
                     (let amount = (if js_get input ''amount'' = JUndefined \<or> js_get input ''amount'' = JNull
                                      then JNum 3 else js_get input ''amount'')
                      in case sendAll br [CdpCommand tabId ''Input.dispatchMouseEvent''] of
                           (done, Some m) \<Rightarrow> (done, Inl m)
                         | (done, None) \<Rightarrow>
                             (done, Inr (JObj [(''scrolled'', JBool True), (''direction'', direction),
                                               (''amount'', amount)])))))\<close>

definition handleFormInput :: "browser \<Rightarrow> group_table \<Rightarrow> string \<Rightarrow> jsval \<Rightarrow> outcome" where
  "handleFormInput br agentGroups aid input =
     (let tabId = js_get input ''tabId''
      in case sanitizeRef (js_get input ''ref'') of
           Inl m \<Rightarrow> ([], Inl m)
         | Inr ref \<Rightarrow>
             (case tabAccessCheck agentGroups aid tabId of
                Some accessErr \<Rightarrow> ([], Inl accessErr)
              | None \<Rightarrow>
                  (let c = ExecuteScript tabId ''formInput'' [ref, js_get input ''value'']
                   in case br c of
                        Inl m \<Rightarrow> ([c], Inl m)
                      | Inr r \<Rightarrow> ([c], Inr r))))"


text \<open>\<open>v[i]\<close> on a value that is neither undefined nor null, and \<open>s.endsWith(p)\<close>.\<close>

definition js_index :: "jsval \<Rightarrow> nat \<Rightarrow> jsval" where
  "js_index v i =
     (case v of
        JArr xs \<Rightarrow> if i < length xs then xs ! i else JUndefined
      | JStr s \<Rightarrow> if i < length s then JStr [s ! i] else JUndefined
      | _ \<Rightarrow> JUndefined)"

definition endsWith :: "string \<Rightarrow> string \<Rightarrow> bool" where
  "endsWith s p = startsWith (rev s) (rev p)"

text \<open>\<open>getScreenshotData\<close>: the stored screenshot of that id, else the id itself, taken as
  raw image data.\<close>

definition getScreenshotData :: "(string \<times> string) list \<Rightarrow> jsval \<Rightarrow> jsval" where
  "getScreenshotData screenshotStore imageId =
     (case imageId of
        JStr k \<Rightarrow> (case map_of screenshotStore k of
                     Some d \<Rightarrow> if d = [] then imageId else JStr d
                   | None \<Rightarrow> imageId)
      | _ \<Rightarrow> imageId)"

definition handleUploadImage ::
  "browser \<Rightarrow> (string \<times> string) list \<Rightarrow> group_table \<Rightarrow> string \<Rightarrow> jsval \<Rightarrow> outcome" where
  \<open>handleUploadImage br screenshotStore agentGroups aid input =
     (let tabId = js_get input ''tabId'';
          ref = js_get input ''ref'';
          coordinate = js_get input ''coordinate'';
          filename = orElse (js_get input ''filename'') (JStr ''image.png'')
      in case tabAccessCheck agentGroups aid tabId of
           Some accessErr \<Rightarrow> ([], Inl accessErr)
         | None \<Rightarrow>
             if \<not> truthy ref \<and> \<not> truthy coordinate
               then ([], Inl ''Either "ref" or "coordinate" must be specified'')
             else
               (let imgData = getScreenshotData screenshotStore (js_get input ''imageId'')
                in case asString filename of
                     None \<Rightarrow> ([], Inl ''filename.endsWith is not a function'')
                   | Some f \<Rightarrow>
                       (let mimeType = (if endsWith f ''.jpg'' \<or> endsWith f ''.jpeg''
                                          then JStr ''image/jpeg'' else JStr ''image/png'')
                        in if truthy ref then
                             (case sanitizeRef ref of
                                Inl m \<Rightarrow> ([], Inl m)
                              | Inr safeRef \<Rightarrow>
                                  scriptByRef br tabId ''uploadToInput''
                                    [safeRef, imgData, filename, mimeType])
                           else
                             (let c = ExecuteScript tabId ''uploadByDrop''
                                        [imgData, js_index coordinate 0, js_index coordinate 1,
                                         filename, mimeType]
                              in case br c of
                                   Inl m \<Rightarrow> ([c], Inl m)
                                 | Inr r \<Rightarrow> ([c], Inr r)))))\<close>

text \<open>\<open>handleReadPage\<close>: the content script is asked first. An error it reports, or a
  rejection of the request, is rethrown unless its message is empty or says that no
  content script is listening; in that case the tree is built by an injected script.\<close>

definition readPageFallback :: "browser \<Rightarrow> jsval \<Rightarrow> jsval \<Rightarrow> browser_call list \<Rightarrow> string \<Rightarrow> outcome" where
  "readPageFallback br tabId opts done msg =
     (if msg \<noteq> [] \<and> \<not> str_includes msg ''Receiving end does not exist''
           \<and> \<not> str_includes msg ''Could not establish connection''
        then (done, Inl msg)
      else
        (let (calls, r) = scriptByRef br tabId ''buildTree'' [opts]
         in (done @ calls, r)))"

definition handleReadPage :: "browser \<Rightarrow> group_table \<Rightarrow> string \<Rightarrow> jsval \<Rightarrow> outcome" where
  "handleReadPage br agentGroups aid input =
     (let tabId = js_get input ''tabId''
      in case tabAccessCheck agentGroups aid tabId of
           Some accessErr \<Rightarrow> ([], Inl accessErr)
         | None \<Rightarrow>
             (case (if truthy (js_get input ''refId'') then sanitizeRef (js_get input ''refId'')
                    else Inr JUndefined) of
                Inl m \<Rightarrow> ([], Inl m)
              | Inr refId \<Rightarrow>
                  (let opts = JObj [(''filter'', js_get input ''filter''),
                                    (''depth'', orElse (js_get input ''depth'') (JNum 8)),
                                    (''maxChars'', orElse (js_get input ''maxChars'') (JNum 50000)),
                                    (''refId'', refId)];
                       c = TabsSendMessage tabId ''viyv-build-a11y-tree'' opts
                   in case br c of
                        Inl m \<Rightarrow> readPageFallback br tabId opts [c] m
                      | Inr result \<Rightarrow>
                          if result \<noteq> JUndefined \<and> result \<noteq> JNull \<and> truthy (js_get result ''error'')
                            then readPageFallback br tabId opts [c] (js_String (js_get result ''error''))
                          else ([c], Inr result))))"


text \<open>The worker's tables. Handlers that are not modelled one by one reach the worker through
  the parameter \<open>others\<close>: given the agent, the tool, the input and the tables, it yields
  what the handler did and the tables afterwards.\<close>

record worker_state =
  tabLocks :: lock_table
  agentGroups :: group_table
  screenshotStore :: "(string \<times> string) list"

type_synonym other_handlers =
  "string \<Rightarrow> string \<Rightarrow> jsval \<Rightarrow> worker_state \<Rightarrow> outcome \<times> worker_state"

text \<open>The names that the \<open>switch\<close> of \<open>dispatchTool\<close> routes to handlers other than
  \<open>click\<close>, \<open>scroll\<close>, \<open>read_page\<close>, \<open>form_input\<close> and \<open>upload_image\<close>.\<close>

definition OTHER_TOOLS :: "string list" where
  "OTHER_TOOLS =
     [''navigate'', ''screenshot'', ''type'', ''key'', ''hover'', ''drag'',
      ''find'', ''javascript_exec'', ''wait_for'', ''get_page_text'', ''handle_dialog'',
      ''tabs_context'', ''tabs_create'', ''tab_close'', ''select_tab'',
      ''read_console_messages'', ''read_network_requests'', ''resize_window'',
      ''agent_tab_assign'', ''agent_tab_list'', ''browser_health'', ''gif_creator'',
      ''update_plan'', ''browser_event_subscribe'',
      ''browser_event_unsubscribe'', ''artifact_from_page'', ''page_data_extract'',
      ''shortcuts_list'', ''shortcuts_execute'']"

text \<open>\<open>typeof tabId !== 'number' || !Number.isFinite(tabId) || tabId < 0\<close>\<close>

definition invalidTabId :: "jsval \<Rightarrow> bool" where
  "invalidTabId tabId = (case tabId of JNum n \<Rightarrow> n < 0 | _ \<Rightarrow> True)"

definition dispatchTool ::
  "browser \<Rightarrow> other_handlers \<Rightarrow> worker_state \<Rightarrow> string \<Rightarrow> string \<Rightarrow> jsval
     \<Rightarrow> outcome \<times> worker_state" where
  "dispatchTool br others w aid tool input =
     (if js_has input ''tabId'' \<and> invalidTabId (js_get input ''tabId'')
        then (([], Inl (''Invalid tabId: '' @ js_String (js_get input ''tabId''))), w)
      else if tool = ''click'' then (handleClick br (agentGroups w) aid input, w)
      else if tool = ''scroll'' then (handleScroll br (agentGroups w) aid input, w)
      else if tool = ''read_page'' then (handleReadPage br (agentGroups w) aid input, w)
      else if tool = ''form_input'' then (handleFormInput br (agentGroups w) aid input, w)
      else if tool = ''upload_image''
        then (handleUploadImage br (screenshotStore w) (agentGroups w) aid input, w)
      else if tool \<in> set OTHER_TOOLS then others aid tool input w
      else (([], Inl (''Unknown tool: '' @ tool)), w))"

text \<open>\<open>checkPermission\<close> approves every call.\<close>

definition checkPermission :: "string \<Rightarrow> string \<Rightarrow> jsval \<Rightarrow> bool" where
  "checkPermission aid tool input = True"

text \<open>\<open>handleToolCall\<close>: the tool result, the tables afterwards and the browser calls made.
  One call runs to completion; the interleaving of several calls at their \<open>await\<close> points is
  not modelled.\<close>

definition handleToolCall ::
  "int \<Rightarrow> browser \<Rightarrow> other_handlers \<Rightarrow> worker_state \<Rightarrow> string \<Rightarrow> string \<Rightarrow> jsval
     \<Rightarrow> ToolResult \<times> worker_state \<times> browser_call list" where
  "handleToolCall now br others w aid tool input =
     (if \<not> checkPermission aid tool input
        then (Failure ''PERMISSION_DENIED'' (''Permission denied for tool '' @ [CHR 0x27] @ tool @ [CHR 0x27]), w, [])
      else
        (case (if isNumber (js_get input ''tabId'') \<and> tool \<in> set CDP_TOOLS
                 then (case js_get input ''tabId'' of JNum n \<Rightarrow> Some n | _ \<Rightarrow> None)
               else None) of
           None \<Rightarrow>
             (let ((calls, r), w') = dispatchTool br others w aid tool input
              in (case r of
                    Inr v \<Rightarrow> (Success v, w', calls)
                  | Inl message \<Rightarrow> (Failure (inferErrorCode message) message, w', calls)))
         | Some tabId \<Rightarrow>
             (let (acquired, locks1) = acquireTabLock now aid tabId DEFAULT_TTL (tabLocks w)
              in if \<not> acquired
                   then (Failure ''TAB_LOCKED'' (''Tab '' @ showInt tabId @ '' is locked by another agent''),
                         w\<lparr>tabLocks := locks1\<rparr>, [])
                 else
                   (let ((calls, r), w') =
                          dispatchTool br others (w\<lparr>tabLocks := locks1\<rparr>) aid tool input;
                        w'' = w'\<lparr>tabLocks := releaseTabLock aid tabId (tabLocks w')\<rparr>
                    in (case r of
                          Inr v \<Rightarrow> (Success v, w'', calls)
                        | Inl message \<Rightarrow> (Failure (inferErrorCode message) message, w'', calls))))))"

text \<open>The \<open>tool_result\<close> record the worker sends for a finished call (service worker entry
  point): \<open>{id, type, agentId, ...result, timestamp}\<close>.\<close>

definition toolResultRecord :: "string \<Rightarrow> string \<Rightarrow> int \<Rightarrow> ToolResult \<Rightarrow> jsval" where
  "toolResultRecord rid aid now res =
     JObj ([(''id'', JStr rid), (''type'', JStr ''tool_result''), (''agentId'', JStr aid)]
           @ (case res of
                Success v \<Rightarrow> [(''success'', JBool True), (''result'', v)]
              | Failure code message \<Rightarrow>
                  [(''success'', JBool False),
                   (''error'', JObj [(''code'', JStr code), (''message'', JStr message)])])
           @ [(''timestamp'', JNum now)])"


section \<open>Server core (server.ts, health.ts, event-bridge.ts)\<close>

text \<open>
  A pending request holds three closures (\<open>resolve\<close>, \<open>reject\<close>, \<open>timer\<close>) over the
  variables of one \<open>callExtensionTool\<close> invocation: the promise of the client's call, the
  tool name, the timeout and the socket captured at send time. The model stores these
  variables. Sockets and client calls are identified by numbers.
\<close>

record request_closure =
  cl_call :: nat
  cl_tool :: string
  cl_timeout :: int
  cl_sock :: nat

record EventSubscription =
  sub_agentId :: string
  eventTypes :: "jsval list"
  urlPattern :: "string option"

text \<open>
  The module-level state of the server process. \<open>armedTimers\<close> are the \<open>setTimeout\<close> handles
  that have neither fired nor been cleared, \<open>errorListeners\<close> the \<open>once('error')\<close> listeners
  installed per request on a socket, \<open>destroyed\<close> the sockets whose \<open>destroyed\<close> flag is
  set. What leaves the process is recorded: \<open>written\<close> are the records written to sockets,
  \<open>responses\<close> the resolved client calls, each with the JSON value \<open>v\<close> of its result
  \<open>{content: [{type: 'text', text: JSON.stringify(v)}]}\<close>, and \<open>notifications\<close> the events
  handed to the listeners, each with the id of the matching subscription.
\<close>

record server_state =
  pendingRequests :: "(string \<times> request_closure) list"
  armedTimers :: "(string \<times> request_closure) list"
  errorListeners :: "(nat \<times> string) list"
  extensionSocket :: "nat option"
  destroyed :: "nat list"
  extensionConnected :: bool
  lastHeartbeat :: "int option"
  sessions :: session_table
  configuredDefaultAgentId :: string
  subscriptions :: "(string \<times> EventSubscription) list"
  written :: "(nat \<times> jsval) list"
  responses :: "(nat \<times> jsval) list"
  notifications :: "(string \<times> jsval) list"

definition PROTOCOL_VERSION :: string where
  "PROTOCOL_VERSION = ''1.0.0''"

definition MCP_TOOL_TIMEOUT :: int where
  "MCP_TOOL_TIMEOUT = 30000"

definition HEARTBEAT_STALENESS_MS :: int where
  "HEARTBEAT_STALENESS_MS = 60000"

definition setExtensionConnected :: "int \<Rightarrow> bool \<Rightarrow> server_state \<Rightarrow> server_state" where
  "setExtensionConnected now connected s =
     (if connected then s\<lparr>extensionConnected := True, lastHeartbeat := Some now\<rparr>
      else s\<lparr>extensionConnected := False\<rparr>)"

definition isExtensionConnected :: "int \<Rightarrow> server_state \<Rightarrow> bool" where
  "isExtensionConnected now s =
     (if \<not> extensionConnected s then False
      else (case lastHeartbeat s of
              Some hb \<Rightarrow> if now - hb > HEARTBEAT_STALENESS_MS then False else True
            | None \<Rightarrow> True))"

definition errorContent :: "string \<Rightarrow> string \<Rightarrow> jsval" where
  "errorContent code message =
     JObj [(''error'', JObj [(''code'', JStr code), (''message'', JStr message)])]"

text \<open>The closures stored in the pending table. Both detach the request's error listener
  from the captured socket and resolve the client's promise.\<close>

definition removeErrorListener :: "string \<Rightarrow> request_closure \<Rightarrow> server_state \<Rightarrow> server_state" where
  "removeErrorListener rid cl s =
     s\<lparr>errorListeners := filter (\<lambda>l. l \<noteq> (cl_sock cl, rid)) (errorListeners s)\<rparr>"

definition pendingResolve ::
  "string \<Rightarrow> request_closure \<Rightarrow> jsval \<Rightarrow> server_state \<Rightarrow> server_state" where
  "pendingResolve rid cl result s =
     (let s1 = removeErrorListener rid cl s
      in s1\<lparr>responses := responses s1 @ [(cl_call cl, result)]\<rparr>)"

definition pendingReject ::
  "string \<Rightarrow> request_closure \<Rightarrow> string \<Rightarrow> server_state \<Rightarrow> server_state" where
  "pendingReject rid cl errorMessage s =
     (let s1 = removeErrorListener rid cl s
      in s1\<lparr>responses := responses s1 @ [(cl_call cl, errorContent ''CDP_ERROR'' errorMessage)]\<rparr>)"

definition clearPending :: "string \<Rightarrow> server_state \<Rightarrow> server_state" where
  \<comment> \<open>\<open>clearTimeout(pending.timer); pendingRequests.delete(id)\<close>\<close>
  "clearPending rid s =
     s\<lparr>armedTimers := AList.delete rid (armedTimers s),
       pendingRequests := AList.delete rid (pendingRequests s)\<rparr>"







text \<open>The connection listener of the socket server, for the accepted socket \<open>sock\<close>.\<close>

definition acceptConnection ::
  "int \<Rightarrow> string \<Rightarrow> string \<Rightarrow> nat \<Rightarrow> server_state \<Rightarrow> server_state" where
  "acceptConnection now uuidSession uuidMsg sock s =
     (let s1 = (case extensionSocket s of
                  Some old \<Rightarrow> if old \<notin> set (destroyed s) then s\<lparr>destroyed := old # destroyed s\<rparr> else s
                | None \<Rightarrow> s);
          s2 = setExtensionConnected now True (s1\<lparr>extensionSocket := Some sock\<rparr>);
          (aid, sess1) = getDefaultAgentId now uuidSession (configuredDefaultAgentId s2) (sessions s2);
          (created, sess2) = createSession now uuidSession aid None sess1;
          initMsg = JObj [(''id'', JStr uuidMsg), (''type'', JStr ''session_init''),
                          (''agentId'', JStr aid), (''protocolVersion'', JStr PROTOCOL_VERSION),
                          (''timestamp'', JNum now)]
      in s2\<lparr>sessions := sess2, written := written s2 @ [(sock, initMsg)]\<rparr>)"


text \<open>\<open>removeSubscriptionsByAgent\<close> and \<open>processEvent\<close> of the event bridge. A subscription
  matches an event of its agent whose type it lists and whose url contains its pattern, when
  it has a non-empty one. Subscriptions enter the table through the client-facing wrapper
  of the subscribe tool, which is not modelled.\<close>

definition removeSubscriptionsByAgent ::
  "string \<Rightarrow> (string \<times> EventSubscription) list \<Rightarrow> (string \<times> EventSubscription) list" where
  "removeSubscriptionsByAgent aid subs = filter (\<lambda>(sid, sub). sub_agentId sub \<noteq> aid) subs"

definition subscriptionMatches :: "jsval \<Rightarrow> EventSubscription \<Rightarrow> bool" where
  "subscriptionMatches msg sub =
     (sub_agentId sub = js_String (orElse (js_get msg ''agentId'') (JStr []))
      \<and> js_get msg ''eventType'' \<in> set (eventTypes sub)
      \<and> (case urlPattern sub of
            None \<Rightarrow> True
          | Some pat \<Rightarrow>
              pat = [] \<or> str_includes (js_String (orElse (js_get msg ''url'') (JStr []))) pat))"

definition processEvent :: "jsval \<Rightarrow> server_state \<Rightarrow> server_state" where
  "processEvent msg s =
     s\<lparr>notifications := notifications s @
          map (\<lambda>(sid, sub). (sid, msg))
              (filter (\<lambda>(sid, sub). subscriptionMatches msg sub) (subscriptions s))\<rparr>"

text \<open>\<open>handleExtensionMessage\<close>: one record received from the extension socket. \<open>uuid\<close> is the
  value \<open>randomUUID()\<close> would return if a session had to be created. Its branches are given
  first, each under the name of the record type it serves.\<close>

definition onToolResult :: "string \<Rightarrow> jsval \<Rightarrow> server_state \<Rightarrow> server_state" where
  "onToolResult rid msg s =
     (case map_of (pendingRequests s) rid of
        None \<Rightarrow> s
      | Some pending \<Rightarrow>
          (let s1 = clearPending rid s
           in if truthy (js_get msg ''success'')
                then pendingResolve rid pending (orElse (js_get msg ''result'') (JObj [])) s1
              else
                (let err = js_get msg ''error'';
                     code = (case asString (js_get err ''code'') of
                               Some c \<Rightarrow> c | None \<Rightarrow> ''UNKNOWN'');
                     errMsg = (case asString (js_get err ''message'') of
                                 Some m \<Rightarrow> m | None \<Rightarrow> ''Unknown error'')
                 in pendingReject rid pending (''['' @ code @ ''] '' @ errMsg) s1)))"

definition onSessionHeartbeat :: "int \<Rightarrow> jsval \<Rightarrow> server_state \<Rightarrow> server_state" where
  "onSessionHeartbeat now msg s =
     (let s1 = s\<lparr>lastHeartbeat := Some now\<rparr>
      in case asString (js_get msg ''agentId'') of
           None \<Rightarrow> s1
         | Some hbAgentId \<Rightarrow>
             if hbAgentId = [] then s1
             else s1\<lparr>sessions := touchSession now hbAgentId (sessions s1)\<rparr>)"

definition onSessionClose :: "jsval \<Rightarrow> server_state \<Rightarrow> server_state" where
  "onSessionClose msg s =
     (case asString (js_get msg ''agentId'') of
        None \<Rightarrow> s
      | Some closeAgentId \<Rightarrow>
          if closeAgentId = [] then s
          else s\<lparr>sessions := closeSession closeAgentId (sessions s),
                 subscriptions := removeSubscriptionsByAgent closeAgentId (subscriptions s)\<rparr>)"

definition onSessionRecovery :: "int \<Rightarrow> string \<Rightarrow> jsval \<Rightarrow> server_state \<Rightarrow> server_state" where
  "onSessionRecovery now uuid msg s =
     (case asString (js_get msg ''agentId'') of
        None \<Rightarrow> s
      | Some recoveryAgentId \<Rightarrow>
          if recoveryAgentId = [] then s
          else s\<lparr>sessions := snd (createSession now uuid recoveryAgentId None (sessions s))\<rparr>)"

definition handleExtensionMessage ::
  "int \<Rightarrow> string \<Rightarrow> jsval \<Rightarrow> server_state \<Rightarrow> server_state" where
  "handleExtensionMessage now uuid msg s =
     (if \<not> truthy msg \<or> \<not> isObjectType msg then s
      else
        (case asString (js_get msg ''type'') of
           None \<Rightarrow> s
         | Some type \<Rightarrow>
             if type = [] then s
             else if type = ''tool_result'' \<and> asString (js_get msg ''id'') \<noteq> None
                     \<and> asString (js_get msg ''id'') \<noteq> Some []
               then onToolResult (the (asString (js_get msg ''id''))) msg s
             else if type = ''session_heartbeat'' then onSessionHeartbeat now msg s
             else if type = ''session_close'' then onSessionClose msg s
             else if type = ''session_recovery'' then onSessionRecovery now uuid msg s
             else if type = ''session_init'' then s
             else if type = ''browser_event'' then processEvent msg s
             else s))"

text \<open>The synchronous part of \<open>handleSwitchBrowser\<close>. The polling for a new connection that
  follows it, and the result it resolves with, are not modelled.\<close>

definition handleSwitchBrowser :: "server_state \<Rightarrow> server_state" where
  "handleSwitchBrowser s =
     (case extensionSocket s of
        Some old \<Rightarrow>
          if old \<notin> set (destroyed s)
            then setExtensionConnected 0 False (s\<lparr>destroyed := old # destroyed s, extensionSocket := None\<rparr>)
          else s
      | None \<Rightarrow> s)"

text \<open>\<open>callExtensionTool\<close> up to the point where it returns its promise: \<open>call\<close> identifies
  the promise, \<open>requestId\<close> and \<open>uuidSession\<close> are the values of \<open>randomUUID()\<close>. The
  \<open>tool_call\<close> record is written to the socket captured at that moment.\<close>

definition toolTimeoutOf :: "string \<Rightarrow> jsval \<Rightarrow> int" where
  "toolTimeoutOf tool input =
     (case js_get input ''timeout'' of
        JNum t \<Rightarrow> if tool = ''wait_for'' then t + 5000 else MCP_TOOL_TIMEOUT
      | _ \<Rightarrow> MCP_TOOL_TIMEOUT)"

definition callExtensionTool ::
  "int \<Rightarrow> nat \<Rightarrow> string \<Rightarrow> string \<Rightarrow> string \<Rightarrow> jsval \<Rightarrow> server_state \<Rightarrow> server_state" where
  "callExtensionTool now call requestId uuidSession tool input s =
     (if tool = ''switch_browser'' then handleSwitchBrowser s
      else
        (case extensionSocket s of
           None \<Rightarrow>
             s\<lparr>responses := responses s @
                  [(call, errorContent ''EXTENSION_NOT_CONNECTED''
                            ''Chrome Extension is not connected. Please open Chrome and click the Viyv Browser extension icon.'')]\<rparr>
         | Some sock \<Rightarrow>
             if sock \<in> set (destroyed s) \<or> \<not> isExtensionConnected now s then
               s\<lparr>responses := responses s @
                    [(call, errorContent ''EXTENSION_NOT_CONNECTED''
                              ''Chrome Extension is not connected. Please open Chrome and click the Viyv Browser extension icon.'')]\<rparr>
             else
               (let (aid, sess1) = getDefaultAgentId now uuidSession (configuredDefaultAgentId s) (sessions s);
                    sess2 = touchSession now aid sess1;
                    cl = \<lparr>cl_call = call, cl_tool = tool, cl_timeout = toolTimeoutOf tool input,
                          cl_sock = sock\<rparr>;
                    request = JObj [(''id'', JStr requestId), (''type'', JStr ''tool_call''),
                                    (''agentId'', JStr aid), (''tool'', JStr tool),
                                    (''input'', input), (''timestamp'', JNum now)]
                in s\<lparr>sessions := sess2,
                      armedTimers := AList.update requestId cl (armedTimers s),
                      pendingRequests := AList.update requestId cl (pendingRequests s),
                      written := written s @ [(sock, request)],
                      errorListeners := errorListeners s @ [(sock, requestId)]\<rparr>)))"



text \<open>What can happen to the server after a request has been sent: a record arrives from
  the extension on some socket, a timer fires, a socket reports an error or closes, a
  connection is accepted. A run applies such events in order.\<close>

datatype server_event =
    Message nat int string jsval
  | TimerFire string
  | SocketError nat
  | SocketClose nat
  | Accept int string string nat




section \<open>Framed transport (native-host/transport.ts)\<close>

type_synonym byte = "8 word"

definition MAX_MESSAGE_SIZE :: nat where
  "MAX_MESSAGE_SIZE = 1024 * 1024"

text \<open>\<open>writeUInt32LE\<close> and \<open>readUInt32LE\<close> on a 4-byte header. \<open>of_nat\<close> keeps the low eight
  bits.\<close>

definition writeUInt32LE :: "nat \<Rightarrow> byte list" where
  "writeUInt32LE n =
     [of_nat n, of_nat (n div 256), of_nat (n div 65536), of_nat (n div 16777216)]"

definition readUInt32LE :: "byte list \<Rightarrow> nat" where
  "readUInt32LE b =
     unat (b ! 0) + 256 * unat (b ! 1) + 65536 * unat (b ! 2) + 16777216 * unat (b ! 3)"

text \<open>
  \<open>encodeMessage\<close>. The JSON library is a parameter: \<open>stringify m\<close> are the bytes of
  \<open>Buffer.from(JSON.stringify(m), 'utf-8')\<close>, and \<open>parse bs\<close> is
  \<open>JSON.parse(bs.toString('utf-8'))\<close>, \<open>Inl\<close> carrying the message of the error it throws.
  \<open>Inl\<close> of \<open>encodeMessage\<close> is the message of the thrown error.
\<close>

definition encodeMessage :: "('m \<Rightarrow> byte list) \<Rightarrow> 'm \<Rightarrow> string + byte list" where
  "encodeMessage stringify message =
     (let body = stringify message
      in if length body > MAX_MESSAGE_SIZE
           then Inl (''Message too large: '' @ showNat (length body) @ '' bytes (max ''
                       @ showNat MAX_MESSAGE_SIZE @ '')'')
         else Inr (writeUInt32LE (length body) @ body))"

datatype 'm reader_event = OnMessage 'm | OnError string

record reader_state =
  buffer :: "byte list"
  expectedLength :: "nat option"

definition readerInit :: reader_state where
  "readerInit = \<lparr>buffer = [], expectedLength = None\<rparr>"

text \<open>The \<open>while (true)\<close> loop of the \<open>data\<close> listener, from the buffer and the expected length
  it starts with to the callbacks made and the state it leaves.\<close>

function readLoop ::
  "(byte list \<Rightarrow> string + 'm) \<Rightarrow> byte list \<Rightarrow> nat option \<Rightarrow> 'm reader_event list \<times> reader_state" where
  "readLoop parse buf expected =
     (if expected = None \<and> length buf < 4 then ([], \<lparr>buffer = buf, expectedLength = None\<rparr>)
      else
        (let n = (case expected of None \<Rightarrow> readUInt32LE buf | Some e \<Rightarrow> e);
             buf1 = (case expected of None \<Rightarrow> drop 4 buf | Some e \<Rightarrow> buf)
         in if expected = None \<and> n > MAX_MESSAGE_SIZE
              then ([OnError (''Message too large: '' @ showNat n @ '' bytes'')],
                    \<lparr>buffer = [], expectedLength = None\<rparr>)
            else if length buf1 < n then ([], \<lparr>buffer = buf1, expectedLength = Some n\<rparr>)
            else
              (let jsonBuffer = take n buf1;
                   ev = (case parse jsonBuffer of
                           Inr message \<Rightarrow> OnMessage message
                         | Inl e \<Rightarrow> OnError (''Invalid JSON: '' @ e));
                   (evs, st) = readLoop parse (drop n buf1) None
               in (ev # evs, st))))"
  by pat_completeness auto
termination
  by (relation "measure (\<lambda>(parse, buf, expected). 2 * length buf + (if expected = None then 0 else 1))")
     (auto split: option.splits)

text \<open>The \<open>data\<close> listener, and a stream delivered as a sequence of chunks.\<close>

definition onData ::
  "(byte list \<Rightarrow> string + 'm) \<Rightarrow> byte list \<Rightarrow> reader_state \<Rightarrow> 'm reader_event list \<times> reader_state" where
  "onData parse chunk st = readLoop parse (buffer st @ chunk) (expectedLength st)"

fun feed ::
  "(byte list \<Rightarrow> string + 'm) \<Rightarrow> byte list list \<Rightarrow> reader_state \<Rightarrow> 'm reader_event list \<times> reader_state" where
  "feed parse [] st = ([], st)"
| "feed parse (chunk # chunks) st =
     (let (evs, st1) = onData parse chunk st;
          (evs', st2) = feed parse chunks st1
      in (evs @ evs', st2))"


section \<open>Compression and chunking (native-host/compression.ts)\<close>

definition CHUNK_SIZE :: nat where
  "CHUNK_SIZE = 768 * 1024"

record ChunkedPayload =
  requestId :: string
  chunk_agentId :: string
  chunkIndex :: int
  totalChunks :: int
  totalSize :: int
  compressed :: bool
  data :: string

text \<open>\<open>decompressPayload\<close>: \<open>gunzip d\<close> stands for
  \<open>gunzipSync(Buffer.from(d, 'base64')).toString('utf-8')\<close>, \<open>Inl\<close> when it throws.\<close>

definition decompressPayload :: "(string \<Rightarrow> string + string) \<Rightarrow> string \<Rightarrow> bool \<Rightarrow> string + string" where
  "decompressPayload gunzip d isCompressed = (if \<not> isCompressed then Inr d else gunzip d)"

text \<open>\<open>chunkPayload\<close>: \<open>Math.ceil(totalSize / CHUNK_SIZE)\<close> slices of at most \<open>CHUNK_SIZE\<close>
  characters.\<close>

definition chunkPayload :: "string \<Rightarrow> string \<Rightarrow> string \<Rightarrow> bool \<Rightarrow> ChunkedPayload list" where
  "chunkPayload rid aid d isCompressed =
     (let total = length d;
          n = (total + CHUNK_SIZE - 1) div CHUNK_SIZE
      in map (\<lambda>i. \<lparr>requestId = rid, chunk_agentId = aid, chunkIndex = int i,
                    totalChunks = int n, totalSize = int total, compressed = isCompressed,
                    data = take CHUNK_SIZE (drop (i * CHUNK_SIZE) d)\<rparr>)
             [0..<n])"

text \<open>\<open>reassembleChunks\<close>: \<open>Array.prototype.sort\<close> is stable, as \<open>sort_key\<close> is. \<open>Inl\<close> is the
  message of the thrown error.\<close>

definition reassembleChunks ::
  "(string \<Rightarrow> string + string) \<Rightarrow> ChunkedPayload list \<Rightarrow> string + string" where
  "reassembleChunks gunzip chunks =
     (if length chunks = 0 then Inl ''Cannot reassemble: no chunks provided''
      else
        (case sort_key chunkIndex chunks of
           [] \<Rightarrow> Inl ''Cannot reassemble: no chunks provided''
         | first # rest \<Rightarrow>
             if int (length (first # rest)) \<noteq> totalChunks first
               then Inl (''Incomplete chunks: got '' @ showNat (length (first # rest))
                           @ '', expected '' @ showInt (totalChunks first))
             else decompressPayload gunzip (concat (map data (first # rest))) (compressed first)))"


section \<open>Bridge (native-host/bridge.ts)\<close>

definition MAX_BUFFER_SIZE :: nat where
  "MAX_BUFFER_SIZE = 1000"

definition RECONNECT_INITIAL_DELAY :: nat where
  "RECONNECT_INITIAL_DELAY = 1000"

definition RECONNECT_MAX_DELAY :: nat where
  "RECONNECT_MAX_DELAY = 30000"

definition RECONNECT_MULTIPLIER :: nat where
  "RECONNECT_MULTIPLIER = 2"

text \<open>A line written to the local socket: the record itself, or the record wrapped in a
  \<open>{type: 'compressed', data}\<close> envelope.\<close>

datatype wire = Line jsval | CompressedLine jsval

text \<open>
  The variables of \<open>startBridge\<close>. \<open>socket\<close> is \<open>None\<close> for \<open>null\<close> and \<open>Some d\<close> for a socket
  object whose \<open>destroyed\<close> flag is \<open>d\<close>; \<open>lineBuffer\<close> belongs to the current socket. What
  the bridge emits is recorded: lines written to the socket, frames written to standard
  output, lines logged on standard error, calls of the \<open>onError\<close> option, delays of the
  reconnect timers set, and whether a flush waits for \<open>drain\<close>.
\<close>

record bridge_state =
  socket :: "bool option"
  reconnecting :: bool
  retryCount :: nat
  pendingMessages :: "jsval list"
  lineBuffer :: string
  socketWrites :: "wire list"
  stdoutWrites :: "byte list list"
  stderrLog :: "string list"
  errorCalls :: "string list"
  reconnectTimers :: "nat list"
  awaitingDrain :: bool

definition socketUsable :: "bridge_state \<Rightarrow> bool" where
  \<comment> \<open>\<open>socket && !socket.destroyed\<close>\<close>
  "socketUsable s = (case socket s of Some d \<Rightarrow> \<not> d | None \<Rightarrow> False)"

text \<open>The loop of \<open>flushBuffer\<close> over the buffered records: \<open>accepts m\<close> is the boolean that
  \<open>socket.write\<close> returns for the line of \<open>m\<close>. The result is the records written, the
  records left, and whether the flush stopped to wait for \<open>drain\<close>. A \<open>socket.write\<close> that
  throws is not modelled.\<close>

fun flushLoop :: "(jsval \<Rightarrow> bool) \<Rightarrow> jsval list \<Rightarrow> jsval list \<times> jsval list \<times> bool" where
  "flushLoop accepts [] = ([], [], False)"
| "flushLoop accepts (msg # rest) =
     (if \<not> accepts msg then ([msg], rest, True)
      else (let (done, left, waiting) = flushLoop accepts rest in (msg # done, left, waiting)))"

definition flushBuffer :: "(jsval \<Rightarrow> bool) \<Rightarrow> bridge_state \<Rightarrow> bridge_state" where
  "flushBuffer accepts s =
     (if \<not> socketUsable s then s
      else
        (let (done, left, waiting) = flushLoop accepts (pendingMessages s)
         in s\<lparr>pendingMessages := left,
               socketWrites := socketWrites s @ map Line done,
               awaitingDrain := waiting\<rparr>))"

definition connectSocket :: "bridge_state \<Rightarrow> bridge_state" where
  "connectSocket s = s\<lparr>socket := Some False, lineBuffer := []\<rparr>"

text \<open>The \<open>connect\<close> listener.\<close>

definition onConnect :: "(jsval \<Rightarrow> bool) \<Rightarrow> bridge_state \<Rightarrow> bridge_state" where
  "onConnect accepts s =
     flushBuffer accepts
       (s\<lparr>stderrLog := stderrLog s @ [''[viyv-browser:native-host] Connected to MCP server''],
          retryCount := 0\<rparr>)"

text \<open>\<open>s.split('\n')\<close>\<close>

fun splitLines :: "string \<Rightarrow> string list" where
  "splitLines [] = [[]]"
| "splitLines (c # cs) =
     (if c = CHR 0x0A then [] # splitLines cs
      else (case splitLines cs of
              l # ls \<Rightarrow> (c # l) # ls
            | [] \<Rightarrow> [[c]]))"

text \<open>One line received from the socket: parsed, unwrapped if it is a compression envelope,
  framed and written to standard output; any error goes to \<open>onError\<close>. \<open>parse\<close> is
  \<open>JSON.parse\<close> on a string, \<open>gunzip\<close> and \<open>stringify\<close> are as above.\<close>

definition forwardLine ::
  "(string \<Rightarrow> string + jsval) \<Rightarrow> (string \<Rightarrow> string + string) \<Rightarrow> (jsval \<Rightarrow> byte list)
     \<Rightarrow> string \<Rightarrow> string + byte list" where
  "forwardLine parse gunzip stringify line =
     (case parse line of
        Inl e \<Rightarrow> Inl e
      | Inr message \<Rightarrow>
          if message = JNull \<or> message = JUndefined
            then Inl (''Cannot read properties of '' @ js_String message)
          else if js_get message ''type'' = JStr ''compressed'' \<and> asString (js_get message ''data'') \<noteq> None
            then (case decompressPayload gunzip (the (asString (js_get message ''data''))) True of
                    Inl e \<Rightarrow> Inl e
                  | Inr decompressed \<Rightarrow>
                      (case parse decompressed of
                         Inl e \<Rightarrow> Inl e
                       | Inr inner \<Rightarrow> encodeMessage stringify inner))
          else encodeMessage stringify message)"

definition onSocketLine ::
  "(string \<Rightarrow> string + jsval) \<Rightarrow> (string \<Rightarrow> string + string) \<Rightarrow> (jsval \<Rightarrow> byte list)
     \<Rightarrow> string \<Rightarrow> bridge_state \<Rightarrow> bridge_state" where
  "onSocketLine parse gunzip stringify line s =
     (if line = [] then s
      else (case forwardLine parse gunzip stringify line of
              Inl e \<Rightarrow> s\<lparr>errorCalls := errorCalls s @ [e]\<rparr>
            | Inr frame \<Rightarrow> s\<lparr>stdoutWrites := stdoutWrites s @ [frame]\<rparr>))"

text \<open>The \<open>data\<close> listener of the socket.\<close>

definition onSocketData ::
  "(string \<Rightarrow> string + jsval) \<Rightarrow> (string \<Rightarrow> string + string) \<Rightarrow> (jsval \<Rightarrow> byte list)
     \<Rightarrow> string \<Rightarrow> bridge_state \<Rightarrow> bridge_state" where
  "onSocketData parse gunzip stringify chunk s =
     (let lines = splitLines (lineBuffer s @ chunk)
      in fold (onSocketLine parse gunzip stringify) (butlast lines)
              (s\<lparr>lineBuffer := last lines\<rparr>))"

text \<open>The \<open>error\<close> and \<open>close\<close> listeners, and the reconnect timer.\<close>

definition onSocketError :: "string \<Rightarrow> bridge_state \<Rightarrow> bridge_state" where
  "onSocketError message s =
     s\<lparr>stderrLog := stderrLog s @ [''[viyv-browser:native-host] Socket error: '' @ message],
       errorCalls := errorCalls s @ [message]\<rparr>"

definition reconnectDelay :: "nat \<Rightarrow> nat" where
  "reconnectDelay retry =
     min (RECONNECT_INITIAL_DELAY * RECONNECT_MULTIPLIER ^ retry) RECONNECT_MAX_DELAY"

definition onSocketClose :: "bridge_state \<Rightarrow> bridge_state" where
  "onSocketClose s =
     (let s1 = s\<lparr>stderrLog := stderrLog s @ [''[viyv-browser:native-host] Socket closed''],
                 socket := None\<rparr>
      in if \<not> reconnecting s1
           then (let delay = reconnectDelay (retryCount s1)
                 in s1\<lparr>reconnecting := True,
                       retryCount := retryCount s1 + 1,
                       stderrLog := stderrLog s1 @
                         [''[viyv-browser:native-host] Reconnecting in '' @ showNat delay
                            @ ''ms (attempt '' @ showNat (retryCount s1 + 1) @ '')''],
                       reconnectTimers := reconnectTimers s1 @ [delay]\<rparr>)
         else s1)"

definition onReconnectTimer :: "bridge_state \<Rightarrow> bridge_state" where
  "onReconnectTimer s = connectSocket (s\<lparr>reconnecting := False\<rparr>)"

text \<open>A record read from the host (standard input). \<open>jsonLength m\<close> is the length of
  \<open>JSON.stringify(m)\<close> and \<open>wasCompressed m\<close> the flag that \<open>compressPayload\<close> returns for it.\<close>

definition onHostMessage ::
  "(jsval \<Rightarrow> nat) \<Rightarrow> (jsval \<Rightarrow> bool) \<Rightarrow> jsval \<Rightarrow> bridge_state \<Rightarrow> bridge_state" where
  "onHostMessage jsonLength wasCompressed message s =
     (if socketUsable s then
        (if jsonLength message > CHUNK_SIZE then
           (if wasCompressed message
              then s\<lparr>socketWrites := socketWrites s @ [CompressedLine message]\<rparr>
            else s\<lparr>socketWrites := socketWrites s @ [Line message]\<rparr>)
         else s\<lparr>socketWrites := socketWrites s @ [Line message]\<rparr>)
      else
        (if length (pendingMessages s) < MAX_BUFFER_SIZE
           then s\<lparr>pendingMessages := pendingMessages s @ [message]\<rparr>
         else s\<lparr>stderrLog := stderrLog s @
                  [''[viyv-browser:native-host] Message buffer full, dropping message'']\<rparr>))"


section \<open>Reassembly as the specification words it\<close>

text \<open>The data of the chunk that carries index \<open>i\<close>, and the concatenation of the data for
  the indices \<open>0, \<dots>, n - 1\<close> in ascending order. These follow the words of the
  specification; \<open>reassembleChunks\<close> above follows the code.\<close>

definition chunkDataAt :: "ChunkedPayload list \<Rightarrow> int \<Rightarrow> string" where
  "chunkDataAt chunks i =
     (case find (\<lambda>c. chunkIndex c = i) chunks of Some c \<Rightarrow> data c | None \<Rightarrow> [])"

definition concatAscending :: "ChunkedPayload list \<Rightarrow> nat \<Rightarrow> string" where
  "concatAscending chunks n = concat (map (\<lambda>i. chunkDataAt chunks (int i)) [0..<n])"


section \<open>The reader part-way through one frame\<close>

text \<open>The state of the reader after it has consumed the first bytes \<open>p\<close> of a frame whose
  body has length \<open>n\<close>, as long as the frame is not complete.\<close>

definition stateAfter :: "byte list \<Rightarrow> nat \<Rightarrow> reader_state" where
  "stateAfter p n =
     (if length p < 4 then \<lparr>buffer = p, expectedLength = None\<rparr>
      else \<lparr>buffer = drop 4 p, expectedLength = Some n\<rparr>)"


section \<open>Calls that are settled\<close>


definition answers :: "nat \<Rightarrow> server_state \<Rightarrow> jsval list" where
  "answers c s = map snd (filter (\<lambda>r. fst r = c) (responses s))"

text \<open>Request \<open>rid\<close> of call \<open>c\<close> is waiting in a state when its closure \<open>cl\<close> is in the
  pending table and its timer is armed, no other entry belongs to the call, and the call
  has no answer yet.\<close>

definition waiting :: "nat \<Rightarrow> string \<Rightarrow> request_closure \<Rightarrow> server_state \<Rightarrow> bool" where
  "waiting c rid cl s =
     (map_of (pendingRequests s) rid = Some cl
      \<and> map_of (armedTimers s) rid = Some cl
      \<and> list_all (\<lambda>e. cl_call (snd e) = c \<longrightarrow> fst e = rid) (pendingRequests s)
      \<and> list_all (\<lambda>e. cl_call (snd e) = c \<longrightarrow> fst e = rid) (armedTimers s)
      \<and> answers c s = [])"


section \<open>Calls that carry a malformed element reference\<close>

text \<open>The tools that take an element reference, each with the input field it reads and
  the condition under which it looks at it: \<open>form_input\<close> always, the others when the field
  is truthy.\<close>

definition carriesBadRef :: "string \<Rightarrow> jsval \<Rightarrow> string \<Rightarrow> bool" where
  "carriesBadRef tool input r =
     (\<not> REF_PATTERN_test r
      \<and> ((tool = ''form_input'' \<and> js_get input ''ref'' = JStr r)
         \<or> (r \<noteq> [] \<and> (tool = ''click'' \<or> tool = ''scroll'' \<or> tool = ''upload_image'')
             \<and> js_get input ''ref'' = JStr r)
         \<or> (r \<noteq> [] \<and> tool = ''read_page'' \<and> js_get input ''refId'' = JStr r)))"


section \<open>Concrete states used to exercise the theorems\<close>

definition lockDemo :: worker_state where
  "lockDemo = \<lparr>tabLocks = [7 \<mapsto> \<lparr>lock_tabId = 7, lock_agentId = ''A'', acquiredAt = 0, ttl = 60000\<rparr>],
               agentGroups = Map.empty, screenshotStore = []\<rparr>"

definition sessionDemo :: server_state where
  "sessionDemo =
     \<lparr>pendingRequests = [], armedTimers = [], errorListeners = [], extensionSocket = None,
      destroyed = [], extensionConnected = False, lastHeartbeat = None,
      sessions = [(''agent-1'', \<lparr>agentId = ''agent-1'', sessionToken = ''token-1'',
                                 agentName = ''agent-1'', status = Idle, lastActivity = 5,
                                 createdAt = 5\<rparr>)],
      configuredDefaultAgentId = ''default'', subscriptions = [], written = [], responses = [],
      notifications = []\<rparr>"

definition demoLength :: "jsval \<Rightarrow> nat" where
  "demoLength m = length (js_String m)"

definition demoCompressed :: "jsval \<Rightarrow> bool" where
  "demoCompressed m = False"

definition demoAccepts :: "jsval \<Rightarrow> bool" where
  "demoAccepts m = True"

definition demoParse :: "string \<Rightarrow> string + jsval" where
  "demoParse line = (if line = ''null'' then Inr JNull else Inr (JStr line))"

definition demoGunzip :: "string \<Rightarrow> string + string" where
  "demoGunzip d = Inr d"

definition demoStringify :: "jsval \<Rightarrow> byte list" where
  "demoStringify v = map (of_nat \<circ> of_char) (js_String v)"

definition bridgeFull :: bridge_state where
  "bridgeFull =
     \<lparr>socket = None, reconnecting = True, retryCount = 1,
      pendingMessages = JStr ''oldest'' # replicate 999 (JStr ''later''),
      lineBuffer = [], socketWrites = [], stdoutWrites = [], stderrLog = [], errorCalls = [],
      reconnectTimers = [1000], awaitingDrain = False\<rparr>"

definition bridgeRetrying :: bridge_state where
  "bridgeRetrying =
     \<lparr>socket = Some False, reconnecting = False, retryCount = 3,
      pendingMessages = [JStr ''queued''],
      lineBuffer = [], socketWrites = [], stdoutWrites = [], stderrLog = [], errorCalls = [],
      reconnectTimers = [1000, 2000, 4000], awaitingDrain = False\<rparr>"

definition demoChunk :: "int \<Rightarrow> string \<Rightarrow> ChunkedPayload" where
  "demoChunk i d = \<lparr>requestId = ''r1'', chunk_agentId = ''a'', chunkIndex = i, totalChunks = 2,
                    totalSize = 4, compressed = False, data = d\<rparr>"

definition dupChunks :: "ChunkedPayload list" where
  "dupChunks = [demoChunk 0 ''ab'', demoChunk 0 ''cd'']"

definition goodChunks :: "ChunkedPayload list" where
  "goodChunks = [demoChunk 1 ''cd'', demoChunk 0 ''ab'']"

definition partialChunks :: "ChunkedPayload list" where
  "partialChunks = [demoChunk 1 ''cd'']"

definition rangeChunks :: "ChunkedPayload list" where
  "rangeChunks = [demoChunk 5 ''cd'', demoChunk 0 ''ab'']"

definition demoInflate :: "string \<Rightarrow> string + string" where
  "demoInflate d = (if d = ''H4sIAA'' then Inr ''hello'' else Inl ''incorrect header check'')"

definition zipChunk :: "int \<Rightarrow> string \<Rightarrow> ChunkedPayload" where
  "zipChunk i d = \<lparr>requestId = ''r2'', chunk_agentId = ''a'', chunkIndex = i, totalChunks = 2,
                   totalSize = 6, compressed = True, data = d\<rparr>"

definition zipChunks :: "ChunkedPayload list" where
  "zipChunks = [zipChunk 1 ''sIAA'', zipChunk 0 ''H4'']"

definition zipSwapped :: "ChunkedPayload list" where
  "zipSwapped = [zipChunk 1 ''H4'', zipChunk 0 ''sIAA'']"

definition demoParseBytes :: "byte list \<Rightarrow> string + jsval" where
  "demoParseBytes bs = Inr (JStr (map (char_of \<circ> unat) bs))"

definition serverIdle :: server_state where
  "serverIdle =
     \<lparr>pendingRequests = [], armedTimers = [], errorListeners = [], extensionSocket = Some 1,
      destroyed = [], extensionConnected = True, lastHeartbeat = Some 0,
      sessions = [(''default'', \<lparr>agentId = ''default'', sessionToken = ''token-0'',
                                 agentName = ''default'', status = Active, lastActivity = 0,
                                 createdAt = 0\<rparr>)],
      configuredDefaultAgentId = ''default'', subscriptions = [], written = [], responses = [],
      notifications = []\<rparr>"

definition clickClosure :: request_closure where
  "clickClosure = \<lparr>cl_call = 0, cl_tool = ''click'', cl_timeout = 30000, cl_sock = 1\<rparr>"

definition pendingDemo :: server_state where
  "pendingDemo =
     callExtensionTool 10 0 ''r1'' ''u1'' ''click'' (JObj [(''tabId'', JNum 99)]) serverIdle"



definition demoBrowser :: browser where
  "demoBrowser c = Inr (JObj [])"

definition demoOthers :: other_handlers where
  "demoOthers aid tool input w = (([], Inr (JObj [])), w)"

definition accessDemo :: worker_state where
  "accessDemo =
     \<lparr>tabLocks = Map.empty,
      agentGroups = [''default'' \<mapsto> \<lparr>grp_agentId = ''default'', grp_agentName = ''default'',
                                       groupId = 1, color = ''blue'', tabs = {1}\<rparr>],
      screenshotStore = []\<rparr>"


section \<open>Tab locks exclude other agents\<close>

lemma acquire_blocked:
  assumes "locks tab = Some lk" "lock_agentId lk \<noteq> b" "now - acquiredAt lk < ttl lk"
  shows "acquireTabLock now b tab t locks = (False, locks)"
  using assms by (simp add: acquireTabLock_def Let_def)

lemma handle_locked:
  assumes "tabLocks w tab = Some lk" "lock_agentId lk \<noteq> b" "now - acquiredAt lk < ttl lk"
    "tool \<in> set CDP_TOOLS" "js_get input ''tabId'' = JNum tab"
  shows "handleToolCall now br others w b tool input =
           (Failure ''TAB_LOCKED'' (''Tab '' @ showInt tab @ '' is locked by another agent''), w, [])"
  using assms by (simp add: handleToolCall_def checkPermission_def acquire_blocked)

text \<open>
  Claim C8. Let tab \<open>tab\<close> carry a lock \<open>lk\<close>. (1) While less than the lock's ttl has elapsed
  since it was acquired, \<open>acquireTabLock\<close> by an agent other than the holder returns false
  and leaves the table as it is, and a call of a CDP-dependent tool on that tab by such an
  agent ends at once with \<open>TAB_LOCKED\<close>, with no browser call made. (2) The holder
  re-acquires with success, and the lock's \<open>acquiredAt\<close> becomes the current time. (3) Once
  more than the ttl has elapsed the lock is broken: any agent's acquisition succeeds and
  installs a fresh lock of its own.
\<close>

theorem tab_lock_discipline:
  assumes held: "tabLocks w tab = Some lk"
  shows "(lock_agentId lk \<noteq> b \<and> now - acquiredAt lk < ttl lk \<longrightarrow>
            acquireTabLock now b tab t (tabLocks w) = (False, tabLocks w)
            \<and> (tool \<in> set CDP_TOOLS \<and> js_get input ''tabId'' = JNum tab \<longrightarrow>
                 handleToolCall now br others w b tool input =
                   (Failure ''TAB_LOCKED'' (''Tab '' @ showInt tab @ '' is locked by another agent''), w, [])))
       \<and> (lock_agentId lk = a \<longrightarrow>
            fst (acquireTabLock now2 a tab t (tabLocks w))
            \<and> map_option acquiredAt (snd (acquireTabLock now2 a tab t (tabLocks w)) tab) = Some now2
            \<and> map_option lock_agentId (snd (acquireTabLock now2 a tab t (tabLocks w)) tab) = Some a)
       \<and> (now3 - acquiredAt lk > ttl lk \<longrightarrow>
            acquireTabLock now3 c tab t (tabLocks w) =
              (True, (tabLocks w)(tab \<mapsto> \<lparr>lock_tabId = tab, lock_agentId = c,
                                           acquiredAt = now3, ttl = t\<rparr>)))"
proof (intro conjI impI)
  assume h: "lock_agentId lk \<noteq> b \<and> now - acquiredAt lk < ttl lk"
  then show "acquireTabLock now b tab t (tabLocks w) = (False, tabLocks w)"
    using held by (simp add: acquire_blocked)
  assume "tool \<in> set CDP_TOOLS \<and> js_get input ''tabId'' = JNum tab"
  then show "handleToolCall now br others w b tool input =
      (Failure ''TAB_LOCKED'' (''Tab '' @ showInt tab @ '' is locked by another agent''), w, [])"
    using held h by (simp add: handle_locked)
next
  assume "lock_agentId lk = a"
  then show "fst (acquireTabLock now2 a tab t (tabLocks w))"
    using held by (simp add: acquireTabLock_def Let_def)
next
  assume "lock_agentId lk = a"
  then show "map_option acquiredAt (snd (acquireTabLock now2 a tab t (tabLocks w)) tab) = Some now2"
    using held by (simp add: acquireTabLock_def Let_def)
next
  assume "lock_agentId lk = a"
  then show "map_option lock_agentId (snd (acquireTabLock now2 a tab t (tabLocks w)) tab) = Some a"
    using held by (simp add: acquireTabLock_def Let_def)
next
  assume "now3 - acquiredAt lk > ttl lk"
  then show "acquireTabLock now3 c tab t (tabLocks w) =
              (True, (tabLocks w)(tab \<mapsto> \<lparr>lock_tabId = tab, lock_agentId = c,
                                           acquiredAt = now3, ttl = t\<rparr>))"
    using held by (simp add: acquireTabLock_def Let_def)
qed

theorem tab_lock_discipline_witness:
  "acquireTabLock 59999 ''B'' 7 DEFAULT_TTL (tabLocks lockDemo) = (False, tabLocks lockDemo)
   \<and> handleToolCall 59999 demoBrowser demoOthers lockDemo ''B'' ''click'' (JObj [(''tabId'', JNum 7)]) =
       (Failure ''TAB_LOCKED'' (''Tab 7 is locked by another agent''), lockDemo, [])
   \<and> fst (acquireTabLock 1000 ''A'' 7 DEFAULT_TTL (tabLocks lockDemo))
   \<and> map_option acquiredAt (snd (acquireTabLock 1000 ''A'' 7 DEFAULT_TTL (tabLocks lockDemo)) 7) = Some 1000
   \<and> acquireTabLock 60001 ''B'' 7 DEFAULT_TTL (tabLocks lockDemo) =
       (True, (tabLocks lockDemo)(7 \<mapsto> \<lparr>lock_tabId = 7, lock_agentId = ''B'',
                                           acquiredAt = 60001, ttl = DEFAULT_TTL\<rparr>))"
  using tab_lock_discipline [of lockDemo 7
      "\<lparr>lock_tabId = 7, lock_agentId = ''A'', acquiredAt = 0, ttl = 60000\<rparr>"
      "''B''" 59999 DEFAULT_TTL "''click''" "JObj [(''tabId'', JNum 7)]" demoBrowser demoOthers "''A''" 1000 60001 "''B''"]
  by (simp add: lockDemo_def CDP_TOOLS_def showInt_def digitChar_def)


section \<open>Existing sessions keep their token\<close>

lemma createSession_keeps:
  assumes "map_of tbl a = Some e"
  shows "\<exists>e'. map_of (snd (createSession now u b nm tbl)) a = Some e'
            \<and> sessionToken e' = sessionToken e \<and> createdAt e' = createdAt e"
  using assms by (cases "a = b") (auto simp: createSession_def Let_def update_conv' split: option.splits)

lemma getDefaultAgentId_keeps:
  assumes "map_of tbl a = Some e"
  shows "\<exists>e'. map_of (snd (getDefaultAgentId now u d tbl)) a = Some e'
            \<and> sessionToken e' = sessionToken e \<and> createdAt e' = createdAt e"
proof (cases "find (\<lambda>s. status s = Active) (map snd tbl)")
  case None
  then have "snd (getDefaultAgentId now u d tbl) = snd (createSession now u d None tbl)"
    by (simp add: getDefaultAgentId_def split: prod.splits)
  then show ?thesis using createSession_keeps[OF assms] by simp
next
  case (Some x)
  then show ?thesis using assms by (simp add: getDefaultAgentId_def)
qed

lemma handle_session_init:
  assumes "js_get msg ''type'' = JStr ''session_init''"
  shows "handleExtensionMessage now u msg s = s"
  using assms by (simp add: handleExtensionMessage_def)

lemma handle_session_recovery:
  assumes "js_get msg ''type'' = JStr ''session_recovery''"
  shows "sessions (handleExtensionMessage now u msg s) = sessions s
       \<or> (\<exists>a. sessions (handleExtensionMessage now u msg s) = snd (createSession now u a None (sessions s)))"
  using assms by (auto simp add: handleExtensionMessage_def onSessionRecovery_def split: option.splits)

lemma accept_sessions:
  "sessions (acceptConnection now u1 u2 sock s) =
     snd (createSession now u1 (fst (getDefaultAgentId now u1 (configuredDefaultAgentId s) (sessions s))) None
            (snd (getDefaultAgentId now u1 (configuredDefaultAgentId s) (sessions s))))"
  by (simp add: acceptConnection_def Let_def setExtensionConnected_def split: prod.splits option.splits)

text \<open>
  Claim C10. For an agent id that already has an entry in the session table,
  \<open>createSession\<close> returns that entry with \<open>status\<close> set to active and \<open>lastActivity\<close>
  set to the current time, every other field (\<open>sessionToken\<close> and \<open>createdAt\<close> among them)
  as it was, and stores it back under the same key. Hence the entry of that agent keeps
  its token and creation time when the server handles a \<open>session_init\<close> or a
  \<open>session_recovery\<close> record (for this or for any other agent), and when it accepts a
  connection and sends its own \<open>session_init\<close>.
\<close>

theorem existing_session_keeps_token:
  assumes ex: "map_of (sessions s) aid = Some existing"
  shows "createSession now uuid aid nm (sessions s) =
           (existing\<lparr>lastActivity := now, status := Active\<rparr>,
            AList.update aid (existing\<lparr>lastActivity := now, status := Active\<rparr>) (sessions s))
       \<and> (js_get msg ''type'' = JStr ''session_init'' \<or> js_get msg ''type'' = JStr ''session_recovery'' \<longrightarrow>
            (\<exists>e'. map_of (sessions (handleExtensionMessage now uuid msg s)) aid = Some e'
                  \<and> sessionToken e' = sessionToken existing \<and> createdAt e' = createdAt existing))
       \<and> (\<exists>e'. map_of (sessions (acceptConnection now uuid uuidMsg sock s)) aid = Some e'
                  \<and> sessionToken e' = sessionToken existing \<and> createdAt e' = createdAt existing)"
proof (intro conjI impI)
  show "createSession now uuid aid nm (sessions s) =
           (existing\<lparr>lastActivity := now, status := Active\<rparr>,
            AList.update aid (existing\<lparr>lastActivity := now, status := Active\<rparr>) (sessions s))"
    using ex by (simp add: createSession_def Let_def)
next
  assume t: "js_get msg ''type'' = JStr ''session_init'' \<or> js_get msg ''type'' = JStr ''session_recovery''"
  show "\<exists>e'. map_of (sessions (handleExtensionMessage now uuid msg s)) aid = Some e'
                  \<and> sessionToken e' = sessionToken existing \<and> createdAt e' = createdAt existing"
  proof (cases "js_get msg ''type'' = JStr ''session_init''")
    case True
    then show ?thesis using ex by (simp add: handle_session_init)
  next
    case False
    with t have "js_get msg ''type'' = JStr ''session_recovery''" by simp
    from handle_session_recovery[OF this, of now uuid s] show ?thesis
      using ex createSession_keeps[OF ex] by auto
  qed
next
  obtain e1 where e1: "map_of (snd (getDefaultAgentId now uuid (configuredDefaultAgentId s) (sessions s))) aid = Some e1"
      "sessionToken e1 = sessionToken existing" "createdAt e1 = createdAt existing"
    using getDefaultAgentId_keeps[OF ex] by blast
  from createSession_keeps[OF e1(1)] e1(2,3)
  show "\<exists>e'. map_of (sessions (acceptConnection now uuid uuidMsg sock s)) aid = Some e'
                  \<and> sessionToken e' = sessionToken existing \<and> createdAt e' = createdAt existing"
    by (simp add: accept_sessions)
qed


theorem existing_session_keeps_token_witness:
  "createSession 100 ''token-2'' ''agent-1'' None (sessions sessionDemo) =
     (\<lparr>agentId = ''agent-1'', sessionToken = ''token-1'', agentName = ''agent-1'',
       status = Active, lastActivity = 100, createdAt = 5\<rparr>,
      [(''agent-1'', \<lparr>agentId = ''agent-1'', sessionToken = ''token-1'', agentName = ''agent-1'',
                      status = Active, lastActivity = 100, createdAt = 5\<rparr>)])
   \<and> (\<exists>e'. map_of (sessions (handleExtensionMessage 100 ''token-2''
                 (JObj [(''id'', JStr ''m1''), (''type'', JStr ''session_recovery''),
                        (''agentId'', JStr ''agent-1'')]) sessionDemo)) ''agent-1'' = Some e'
           \<and> sessionToken e' = ''token-1'' \<and> createdAt e' = 5)
   \<and> (\<exists>e'. map_of (sessions (acceptConnection 100 ''token-2'' ''m2'' 1 sessionDemo)) ''agent-1'' = Some e'
           \<and> sessionToken e' = ''token-1'' \<and> createdAt e' = 5)"
  using existing_session_keeps_token [of sessionDemo "''agent-1''"
      "\<lparr>agentId = ''agent-1'', sessionToken = ''token-1'', agentName = ''agent-1'',
        status = Idle, lastActivity = 5, createdAt = 5\<rparr>" 100 "''token-2''" None
      "JObj [(''id'', JStr ''m1''), (''type'', JStr ''session_recovery''), (''agentId'', JStr ''agent-1'')]"
      "''m2''" 1]
  by (simp add: sessionDemo_def)


section \<open>Bridge: a full buffer\<close>

text \<open>
  Claim C3, as stated, fails: with no socket and 1000 buffered records, a further record from
  the host leaves the buffer exactly as it was. The oldest record is still at its head and
  the new record is not in it.
\<close>

theorem full_buffer_keeps_oldest_counterexample:
  "socket bridgeFull = None
   \<and> length (pendingMessages bridgeFull) = 1000
   \<and> hd (pendingMessages bridgeFull) = JStr ''oldest''
   \<and> pendingMessages (onHostMessage demoLength demoCompressed (JStr ''new'') bridgeFull)
       = pendingMessages bridgeFull
   \<and> JStr ''new'' \<notin> set (pendingMessages (onHostMessage demoLength demoCompressed (JStr ''new'') bridgeFull))"
  by (simp add: bridgeFull_def onHostMessage_def socketUsable_def MAX_BUFFER_SIZE_def)

text \<open>
  Claim C3, amended. Whenever the bridge's socket is not usable (null or destroyed) and the
  pending buffer holds 1000 records, a further record from the host is itself dropped, with
  an error logged; the buffer, its oldest record included, and everything else stay as
  they were.
\<close>

theorem full_buffer_drops_new:
  assumes "\<not> socketUsable s" "length (pendingMessages s) = MAX_BUFFER_SIZE"
  shows "onHostMessage jsonLength wasCompressed message s =
           s\<lparr>stderrLog := stderrLog s @
                [''[viyv-browser:native-host] Message buffer full, dropping message'']\<rparr>"
  using assms by (simp add: onHostMessage_def)

theorem full_buffer_drops_new_witness:
  "\<not> socketUsable bridgeFull \<and> length (pendingMessages bridgeFull) = MAX_BUFFER_SIZE
   \<and> onHostMessage demoLength demoCompressed (JStr ''new'') bridgeFull =
       bridgeFull\<lparr>stderrLog := [''[viyv-browser:native-host] Message buffer full, dropping message'']\<rparr>"
proof -
  have h1: "\<not> socketUsable bridgeFull" by (simp add: bridgeFull_def socketUsable_def)
  have h2: "length (pendingMessages bridgeFull) = MAX_BUFFER_SIZE"
    by (simp add: bridgeFull_def MAX_BUFFER_SIZE_def)
  have "stderrLog bridgeFull = []" by (simp add: bridgeFull_def)
  with full_buffer_drops_new [OF h1 h2, of demoLength demoCompressed "JStr ''new''"] h1 h2
  show ?thesis by simp
qed

section \<open>Bridge: the retry counter\<close>

lemma flushBuffer_retry: "retryCount (flushBuffer acc s) = retryCount s"
  by (simp add: flushBuffer_def split: prod.splits)

lemma onSocketLine_retry: "retryCount (onSocketLine p g st l s) = retryCount s"
  by (simp add: onSocketLine_def split: sum.splits)

lemma fold_onSocketLine_retry: "retryCount (fold (onSocketLine p g st) ls s) = retryCount s"
  by (induction ls arbitrary: s) (simp_all add: onSocketLine_retry)

text \<open>
  Claim C4, as stated, fails: after three failed attempts the \<open>connect\<close> event alone takes the
  retry counter from 3 to 0.
\<close>

theorem retry_reset_on_connect_counterexample:
  "retryCount bridgeRetrying = 3 \<and> retryCount (onConnect demoAccepts bridgeRetrying) = 0"
  by (simp add: bridgeRetrying_def onConnect_def flushBuffer_retry)

text \<open>
  Claim C4, amended. The retry counter is reset to zero by the \<open>connect\<close> event itself, and
  the receipt of data from the socket, whatever records it carries, leaves the counter
  unchanged.
\<close>

theorem retry_reset_on_connect:
  "retryCount (onConnect accepts s) = 0
   \<and> retryCount (onSocketData parse gunzip stringify chunk s) = retryCount s"
  by (simp add: onConnect_def flushBuffer_retry onSocketData_def Let_def fold_onSocketLine_retry)

theorem retry_reset_on_connect_witness:
  "retryCount (onConnect demoAccepts bridgeRetrying) = 0
   \<and> retryCount (onSocketData demoParse demoGunzip demoStringify (''hello'' @ [CHR 0x0A]) bridgeRetrying) = 3"
  using retry_reset_on_connect [of demoAccepts bridgeRetrying demoParse demoGunzip demoStringify "''hello'' @ [CHR 0x0A]"]
  by (simp add: bridgeRetrying_def)


section \<open>Chunk reassembly\<close>

lemma find_unique:
  assumes "inj_on f (set xs)" "x \<in> set xs"
  shows "find (\<lambda>c. f c = f x) xs = Some x"
  using assms
proof (induction xs)
  case Nil then show ?case by simp
next
  case (Cons y ys)
  show ?case
  proof (cases "f y = f x")
    case True
    with Cons.prems have "y = x" by (auto dest: inj_onD)
    then show ?thesis by simp
  next
    case False
    with Cons.prems have "x \<in> set ys" by auto
    moreover from Cons.prems have "inj_on f (set ys)" by (auto intro: inj_on_subset)
    ultimately show ?thesis using Cons.IH False by simp
  qed
qed

lemma sorted_indices:
  assumes d: "distinct (map chunkIndex chunks)"
    and s: "chunkIndex ` set chunks = int ` {0..<n}"
  shows "map chunkIndex (sort_key chunkIndex chunks) = map int [0..<n]"
proof (rule sorted_distinct_set_unique)
  show "sorted (map chunkIndex (sort_key chunkIndex chunks))" by (rule sorted_sort_key)
  from d have "distinct chunks" "inj_on chunkIndex (set chunks)" by (simp_all add: distinct_map)
  then show "distinct (map chunkIndex (sort_key chunkIndex chunks))" by (simp add: distinct_map)
  show "sorted (map int [0..<n])" by (simp add: sorted_map)  
  show "distinct (map int [0..<n])" by (simp add: distinct_map)
  show "set (map chunkIndex (sort_key chunkIndex chunks)) = set (map int [0..<n])"
    using s by simp
qed

lemma data_in_order:
  assumes d: "distinct (map chunkIndex chunks)"
    and s: "chunkIndex ` set chunks = int ` {0..<n}"
  shows "map data (sort_key chunkIndex chunks) = map (\<lambda>i. chunkDataAt chunks (int i)) [0..<n]"
proof (rule nth_equalityI)
  have len: "length (sort_key chunkIndex chunks) = n"
    using sorted_indices[OF d s] by (metis length_map length_upt minus_nat.diff_0)
  then show "length (map data (sort_key chunkIndex chunks)) = length (map (\<lambda>i. chunkDataAt chunks (int i)) [0..<n])"
    by simp
  fix k assume "k < length (map data (sort_key chunkIndex chunks))"
  then have k: "k < n" using len by simp
  let ?c = "sort_key chunkIndex chunks ! k"
  have mem: "?c \<in> set chunks" using k len by (metis nth_mem set_sort)
  have "map chunkIndex (sort_key chunkIndex chunks) ! k = map int [0..<n] ! k"
    using sorted_indices[OF d s] by simp
  then have idx: "chunkIndex ?c = int k" using k len by simp
  from d have inj: "inj_on chunkIndex (set chunks)" by (simp add: distinct_map)
  have "find (\<lambda>c. chunkIndex c = chunkIndex ?c) chunks = Some ?c"
    by (rule find_unique[OF inj mem])
  then have "chunkDataAt chunks (int k) = data ?c" by (simp add: chunkDataAt_def idx)
  then show "map data (sort_key chunkIndex chunks) ! k = map (\<lambda>i. chunkDataAt chunks (int i)) [0..<n] ! k"
    using k len by simp
qed

lemma reassemble_unfold:
  assumes ne: "chunks \<noteq> []"
    and sh: "\<forall>c \<in> set chunks. totalChunks c = int n \<and> compressed c = z"
  shows "reassembleChunks gunzip chunks =
           (if length chunks \<noteq> n
              then Inl (''Incomplete chunks: got '' @ showNat (length chunks) @ '', expected '' @ showInt (int n))
            else decompressPayload gunzip (concat (map data (sort_key chunkIndex chunks))) z)"
proof -
  obtain first rest where fr: "sort_key chunkIndex chunks = first # rest"
    using ne by (metis length_sort list.size(3) neq_Nil_conv length_0_conv)
  then have "first \<in> set chunks" by (metis list.set_intros(1) set_sort)
  with sh have f: "totalChunks first = int n" "compressed first = z" by auto
  have l: "length (first # rest) = length chunks" using fr by (metis length_sort)
  show ?thesis
    using ne f l fr unfolding reassembleChunks_def
    by (simp del: length_sort)  
qed

text \<open>
  Claim C9, as stated, fails in two ways, since only the number of chunks is compared with
  \<open>totalChunks\<close>. Two chunks of one request that share \<open>totalChunks = 2\<close>, \<open>totalSize\<close>
  and \<open>compressed\<close> and both carry index 0 leave index 1 missing, yet reassembly succeeds.
  So it does for two such chunks with the indices 5 and 0, where index 1 is missing again
  and one index lies outside \<open>0 \<dots> totalChunks - 1\<close>.
\<close>

theorem reassemble_missing_index_counterexample:
  "(dupChunks \<noteq> []
    \<and> map requestId dupChunks = [''r1'', ''r1'']
    \<and> map totalChunks dupChunks = [2, 2]
    \<and> map totalSize dupChunks = [4, 4]
    \<and> map compressed dupChunks = [False, False]
    \<and> map chunkIndex dupChunks = [0, 0]
    \<and> 1 \<notin> set (map chunkIndex dupChunks)
    \<and> reassembleChunks demoInflate dupChunks = Inr ''abcd'')
   \<and> (rangeChunks \<noteq> []
    \<and> map requestId rangeChunks = [''r1'', ''r1'']
    \<and> map totalChunks rangeChunks = [2, 2]
    \<and> map totalSize rangeChunks = [4, 4]
    \<and> map compressed rangeChunks = [False, False]
    \<and> map chunkIndex rangeChunks = [5, 0]
    \<and> 1 \<notin> set (map chunkIndex rangeChunks)
    \<and> reassembleChunks demoInflate rangeChunks = Inr ''abcd'')"
  by (simp add: dupChunks_def rangeChunks_def reassembleChunks_def demoChunk_def
      decompressPayload_def)

text \<open>
  Claim C9, amended. For every non-empty list of chunks that share \<open>totalChunks\<close> and the
  \<open>compressed\<close> flag, whose chunk indices are pairwise distinct and lie in the range
  \<open>0 \<dots> totalChunks - 1\<close>: reassembly fails with \<open>Incomplete chunks\<close> whenever an index of
  that range is missing; otherwise, with \<open>d\<close> the concatenation of the chunk data in
  ascending index order, it returns \<open>d\<close> itself when \<open>compressed\<close> is false, and what the
  gzip decoder makes of \<open>d\<close> (its output, or its failure) when \<open>compressed\<close> is true.
\<close>

theorem reassemble_distinct_indices:
  assumes ne: "chunks \<noteq> []"
    and sh: "\<forall>c \<in> set chunks. totalChunks c = int n \<and> compressed c = z"
    and d: "distinct (map chunkIndex chunks)"
    and r: "\<forall>c \<in> set chunks. 0 \<le> chunkIndex c \<and> chunkIndex c < int n"
  shows "((\<exists>i<n. int i \<notin> chunkIndex ` set chunks) \<longrightarrow>
            reassembleChunks gunzip chunks =
              Inl (''Incomplete chunks: got '' @ showNat (length chunks) @ '', expected '' @ showInt (int n)))
       \<and> ((\<forall>i<n. int i \<in> chunkIndex ` set chunks) \<longrightarrow>
            reassembleChunks gunzip chunks =
              (if z then gunzip (concatAscending chunks n) else Inr (concatAscending chunks n)))"
proof (intro conjI impI)
  have sub: "chunkIndex ` set chunks \<subseteq> int ` {0..<n}"
  proof
    fix x assume "x \<in> chunkIndex ` set chunks"
    then obtain c where "c \<in> set chunks" "x = chunkIndex c" by auto
    with r have "0 \<le> x" "x < int n" by auto
    then have "x = int (nat x)" "nat x < n" by auto
    then show "x \<in> int ` {0..<n}" by (metis atLeastLessThan_iff image_eqI le0)
  qed
  have card: "card (chunkIndex ` set chunks) = length chunks"
    using d by (metis distinct_card length_map set_map)
  {
    assume "\<exists>i<n. int i \<notin> chunkIndex ` set chunks"
    then obtain i where i: "i < n" "int i \<notin> chunkIndex ` set chunks" by auto
    then have "chunkIndex ` set chunks \<subset> int ` {0..<n}" using sub by auto
    then have "card (chunkIndex ` set chunks) < card (int ` {0..<n})"
      by (intro psubset_card_mono) auto
    then have "length chunks < n" using card by (simp add: card_image)
    then show "reassembleChunks gunzip chunks =
              Inl (''Incomplete chunks: got '' @ showNat (length chunks) @ '', expected '' @ showInt (int n))"
      by (simp add: reassemble_unfold[OF ne sh])
  }
  {
    assume "\<forall>i<n. int i \<in> chunkIndex ` set chunks"
    then have eq: "chunkIndex ` set chunks = int ` {0..<n}" using sub by auto
    then have "length chunks = n" using card by (simp add: card_image)
    then show "reassembleChunks gunzip chunks =
              (if z then gunzip (concatAscending chunks n) else Inr (concatAscending chunks n))"
      by (simp add: reassemble_unfold[OF ne sh] data_in_order[OF d eq] concatAscending_def
          decompressPayload_def)
  }
qed

text \<open>
  The theorem at work: two uncompressed chunks given out of order come back as their data
  in index order, untouched by the decoder; a lone chunk of two is refused; two compressed
  chunks given out of order are joined in index order and handed to the decoder, whose
  output is returned; and when the joined data is not what the decoder accepts, its
  failure is the result.
\<close>

theorem reassemble_distinct_indices_witness:
  "reassembleChunks demoInflate goodChunks = Inr ''abcd''
   \<and> reassembleChunks demoInflate partialChunks = Inl ''Incomplete chunks: got 1, expected 2''
   \<and> reassembleChunks demoInflate zipChunks = Inr ''hello''
   \<and> reassembleChunks demoInflate zipSwapped = Inl ''incorrect header check''"
proof -
  have g1: "goodChunks \<noteq> []" by (simp add: goodChunks_def)
  have g2: "\<forall>c \<in> set goodChunks. totalChunks c = int 2 \<and> compressed c = False"
    by (simp add: goodChunks_def demoChunk_def)
  have g3: "distinct (map chunkIndex goodChunks)" by (simp add: goodChunks_def demoChunk_def)
  have g4: "\<forall>c \<in> set goodChunks. 0 \<le> chunkIndex c \<and> chunkIndex c < int 2"
    by (simp add: goodChunks_def demoChunk_def)
  have g5: "\<forall>i<2. int i \<in> chunkIndex ` set goodChunks"
    by (auto simp add: goodChunks_def demoChunk_def less_2_cases_iff)
  have g6: "concatAscending goodChunks 2 = ''abcd''"
    by (simp add: concatAscending_def chunkDataAt_def goodChunks_def demoChunk_def numeral_2_eq_2)
  have p1: "partialChunks \<noteq> []" by (simp add: partialChunks_def)
  have p2: "\<forall>c \<in> set partialChunks. totalChunks c = int 2 \<and> compressed c = False"
    by (simp add: partialChunks_def demoChunk_def)
  have p3: "distinct (map chunkIndex partialChunks)" by (simp add: partialChunks_def demoChunk_def)
  have p4: "\<forall>c \<in> set partialChunks. 0 \<le> chunkIndex c \<and> chunkIndex c < int 2"
    by (simp add: partialChunks_def demoChunk_def)
  have p5: "\<exists>i<2. int i \<notin> chunkIndex ` set partialChunks"
    by (rule exI[of _ 0]) (simp add: partialChunks_def demoChunk_def)
  have p6: "length partialChunks = 1" by (simp add: partialChunks_def)
  have z1: "zipChunks \<noteq> []" by (simp add: zipChunks_def)
  have z2: "\<forall>c \<in> set zipChunks. totalChunks c = int 2 \<and> compressed c = True"
    by (simp add: zipChunks_def zipChunk_def)
  have z3: "distinct (map chunkIndex zipChunks)" by (simp add: zipChunks_def zipChunk_def)
  have z4: "\<forall>c \<in> set zipChunks. 0 \<le> chunkIndex c \<and> chunkIndex c < int 2"
    by (simp add: zipChunks_def zipChunk_def)
  have z5: "\<forall>i<2. int i \<in> chunkIndex ` set zipChunks"
    by (auto simp add: zipChunks_def zipChunk_def less_2_cases_iff)
  have z6: "concatAscending zipChunks 2 = ''H4sIAA''"
    by (simp add: concatAscending_def chunkDataAt_def zipChunks_def zipChunk_def numeral_2_eq_2)
  have w1: "zipSwapped \<noteq> []" by (simp add: zipSwapped_def)
  have w2: "\<forall>c \<in> set zipSwapped. totalChunks c = int 2 \<and> compressed c = True"
    by (simp add: zipSwapped_def zipChunk_def)
  have w3: "distinct (map chunkIndex zipSwapped)" by (simp add: zipSwapped_def zipChunk_def)
  have w4: "\<forall>c \<in> set zipSwapped. 0 \<le> chunkIndex c \<and> chunkIndex c < int 2"
    by (simp add: zipSwapped_def zipChunk_def)
  have w5: "\<forall>i<2. int i \<in> chunkIndex ` set zipSwapped"
    by (auto simp add: zipSwapped_def zipChunk_def less_2_cases_iff)
  have w6: "concatAscending zipSwapped 2 = ''sIAAH4''"
    by (simp add: concatAscending_def chunkDataAt_def zipSwapped_def zipChunk_def numeral_2_eq_2)
  from reassemble_distinct_indices [OF g1 g2 g3 g4, of demoInflate] g5 g6
  have a: "reassembleChunks demoInflate goodChunks = Inr ''abcd''"
    by simp
  from reassemble_distinct_indices [OF p1 p2 p3 p4, of demoInflate] p5 p6
  have b: "reassembleChunks demoInflate partialChunks = Inl ''Incomplete chunks: got 1, expected 2''"
    by (simp add: showInt_def digitChar_def)
  from reassemble_distinct_indices [OF z1 z2 z3 z4, of demoInflate] z5 z6
  have c: "reassembleChunks demoInflate zipChunks = Inr ''hello''"
    by (simp add: demoInflate_def)
  from reassemble_distinct_indices [OF w1 w2 w3 w4, of demoInflate] w5 w6
  have d: "reassembleChunks demoInflate zipSwapped = Inl ''incorrect header check''"
    by (simp add: demoInflate_def)
  from a b c d show ?thesis by simp
qed


section \<open>Framing round trip\<close>

lemma unat_byte: "unat (of_nat k :: byte) = k mod 256"
  by (simp add: unat_of_nat)

lemma le_split: "(n::nat) < 4294967296 \<Longrightarrow> n mod 256 + 256 * (n div 256 mod 256) + 65536 * (n div 65536 mod 256)
               + 16777216 * (n div 16777216 mod 256) = n"
proof -
  assume a: "n < 4294967296"
  have d3: "n div 16777216 mod 256 = n div 16777216" using a by simp
  have e1: "n div 65536 = (n div 256) div 256" by (simp add: div_mult2_eq)
  have e2: "n div 16777216 = (n div 65536) div 256" by (simp add: div_mult2_eq)
  have s2: "n div 65536 mod 256 + 256 * (n div 16777216) = n div 65536"
    unfolding e2 by (simp add: mod_div_mult_eq)
  have s1: "n div 256 mod 256 + 256 * (n div 65536) = n div 256"
    unfolding e1 by (simp add: mod_div_mult_eq)
  have s0: "n mod 256 + 256 * (n div 256) = n" by simp
  show ?thesis using d3 s2 s1 s0 by linarith
qed


lemma header_roundtrip:
  assumes "n \<le> MAX_MESSAGE_SIZE"
  shows "readUInt32LE (writeUInt32LE n @ rest) = n"
proof -
  have "n < 4294967296" using assms by (simp add: MAX_MESSAGE_SIZE_def)
  then have "n mod 256 + 256 * (n div 256 mod 256) + 65536 * (n div 65536 mod 256)
               + 16777216 * (n div 16777216 mod 256) = n"
    by (rule le_split)
  moreover have "n div 16777216 mod 256 = n div 16777216"
    using \<open>n < 4294967296\<close> by simp
  ultimately show ?thesis
    by (simp add: readUInt32LE_def writeUInt32LE_def unat_byte)
qed

lemma length_header [simp]: "length (writeUInt32LE n) = 4"
  by (simp add: writeUInt32LE_def)

declare readLoop.simps [simp del]

lemma loop_short:
  "length buf < 4 \<Longrightarrow> readLoop parse buf None = ([], \<lparr>buffer = buf, expectedLength = None\<rparr>)"
  by (subst readLoop.simps) simp

lemma loop_body_partial:
  "length buf < n \<Longrightarrow> readLoop parse buf (Some n) = ([], \<lparr>buffer = buf, expectedLength = Some n\<rparr>)"
  by (subst readLoop.simps) simp

lemma loop_body_complete:
  "length buf = n \<Longrightarrow> parse buf = Inr v \<Longrightarrow> readLoop parse buf (Some n) = ([OnMessage v], readerInit)"
  by (subst readLoop.simps) (simp add: loop_short readerInit_def)

lemma loop_header_partial:
  assumes "n \<le> MAX_MESSAGE_SIZE" "length part < n"
  shows "readLoop parse (writeUInt32LE n @ part) None = ([], \<lparr>buffer = part, expectedLength = Some n\<rparr>)"
  using assms by (subst readLoop.simps) (simp add: header_roundtrip)

lemma loop_header_complete:
  assumes "n \<le> MAX_MESSAGE_SIZE" "length body = n" "parse body = Inr v"
  shows "readLoop parse (writeUInt32LE n @ body) None = ([OnMessage v], readerInit)"
  using assms by (subst readLoop.simps) (simp add: header_roundtrip loop_short readerInit_def)

lemma onData_step:
  assumes n: "length body \<le> MAX_MESSAGE_SIZE" and pv: "parse body = Inr v"
    and split: "p @ c @ rest = writeUInt32LE (length body) @ body"
    and proper: "length p < 4 + length body"
  shows "onData parse c (stateAfter p (length body)) =
           (if length (p @ c) < 4 + length body then ([], stateAfter (p @ c) (length body))
            else ([OnMessage v], readerInit))"
proof (cases "length (p @ c) < 4")
  case True
  then show ?thesis by (simp add: onData_def stateAfter_def loop_short)
next
  case long: False
  let ?h = "writeUInt32LE (length body)"
  have tk: "take 4 (p @ c) = ?h"
  proof -
    have "take 4 (p @ c @ rest) = take 4 (?h @ body)" using split by simp
    moreover have "take 4 (p @ c @ rest) = take 4 (p @ c)" using long by simp
    ultimately show ?thesis by simp
  qed
  have dr: "drop 4 (p @ c) @ rest = body"
  proof -
    have "drop 4 ((p @ c) @ rest) = drop 4 (?h @ body)" using split by simp
    then show ?thesis using long by simp
  qed
  have pc: "p @ c = ?h @ drop 4 (p @ c)" using tk by (metis append_take_drop_id)
  have len: "length (drop 4 (p @ c)) + length rest = length body" using dr by (metis length_append)
  show ?thesis
  proof (cases "length (p @ c) < 4 + length body")
    case part: True
    then have lp: "length (drop 4 (p @ c)) < length body" using long by (simp del: drop_append)
    show ?thesis
    proof (cases "length p < 4")
      case True
      have "readLoop parse (p @ c) None = ([], \<lparr>buffer = drop 4 (p @ c), expectedLength = Some (length body)\<rparr>)"
        by (subst pc) (rule loop_header_partial[where n="length body", OF n lp])
      then show ?thesis using True long part by (simp add: onData_def stateAfter_def)
    next
      case False
      then have e: "drop 4 p @ c = drop 4 (p @ c)" by simp
      have "readLoop parse (drop 4 p @ c) (Some (length body)) =
              ([], \<lparr>buffer = drop 4 p @ c, expectedLength = Some (length body)\<rparr>)"
        unfolding e by (rule loop_body_partial[OF lp])
      then show ?thesis using False long part e
        by (simp add: onData_def stateAfter_def del: drop_append)
    qed
  next
    case full: False
    then have "length (drop 4 (p @ c)) \<ge> length body" by (simp del: drop_append)
    with len have "length rest = 0" and lb: "length (drop 4 (p @ c)) = length body"
      by linarith+
    then have r: "rest = []" by (simp only: length_0_conv)
    with dr have b: "drop 4 (p @ c) = body" by simp
    show ?thesis
    proof (cases "length p < 4")
      case True
      have "readLoop parse (p @ c) None = ([OnMessage v], readerInit)"
        by (subst pc, subst b) (rule loop_header_complete[where n="length body" and body=body and parse=parse and v=v, OF n refl pv])
      then show ?thesis using True full by (simp add: onData_def stateAfter_def)
    next
      case False
      then have e: "drop 4 p @ c = body" using b by simp
      have "readLoop parse body (Some (length body)) = ([OnMessage v], readerInit)"
        by (rule loop_body_complete[where buf=body and n="length body" and parse=parse and v=v, OF refl pv])
      then show ?thesis using False full e
        by (simp add: onData_def stateAfter_def del: drop_append)
    qed
  qed
qed

lemma feed_empty_chunks:
  "concat chunks = [] \<Longrightarrow> feed parse chunks readerInit = ([], readerInit)"
proof (induction chunks)
  case Nil then show ?case by simp
next
  case (Cons c cs)
  then have "c = []" "concat cs = []" by auto
  then show ?case using Cons.IH by (simp add: onData_def readerInit_def loop_short)
qed

lemma feed_prefix:
  assumes n: "length body \<le> MAX_MESSAGE_SIZE" and pv: "parse body = Inr v"
  shows "p @ concat chunks = writeUInt32LE (length body) @ body \<Longrightarrow> length p < 4 + length body
         \<Longrightarrow> feed parse chunks (stateAfter p (length body)) = ([OnMessage v], readerInit)"
proof (induction chunks arbitrary: p)
  case Nil
  then have "length p = 4 + length body" by (metis append_Nil2 concat.simps(1) length_append length_header)
  with Nil show ?case by simp
next
  case (Cons c cs)
  have sp: "p @ c @ concat cs = writeUInt32LE (length body) @ body" using Cons.prems by simp
  note st = onData_step[where body=body and parse=parse and v=v and p=p and c=c and rest="concat cs", OF n pv sp Cons.prems(2)]
  show ?case
  proof (cases "length (p @ c) < 4 + length body")
    case True
    have "feed parse cs (stateAfter (p @ c) (length body)) = ([OnMessage v], readerInit)"
      using Cons.IH[of "p @ c"] sp True by simp
    then show ?thesis using st True by simp
  next
    case False
    have "length (p @ c) + length (concat cs) = 4 + length body"
      using sp by (metis append_assoc length_append length_header)
    with False have "length (concat cs) = 0" by (simp del: length_0_conv)
    then have "concat cs = []" by (simp only: length_0_conv)
    then have "feed parse cs readerInit = ([], readerInit)" by (rule feed_empty_chunks)
    then show ?thesis using st False by simp
  qed
qed

text \<open>
  Claim C6. Let the JSON library round-trip the value \<open>v\<close> (parsing the bytes of its
  serialization gives \<open>v\<close> back), and let that serialization be at most 1 048 576 bytes
  long. Then \<open>encodeMessage\<close> succeeds, and whatever way its bytes are cut into successive
  read chunks (empty chunks included), the reader started in its initial state calls
  \<open>onMessage\<close> exactly once, with \<open>v\<close>, calls \<open>onError\<close> never, and is back in its initial
  state at the end.
\<close>

theorem framing_roundtrip:
  assumes size: "length (stringify v) \<le> MAX_MESSAGE_SIZE"
    and json: "parse (stringify v) = Inr v"
  shows "\<exists>bytes. encodeMessage stringify v = Inr bytes
           \<and> (\<forall>chunks. concat chunks = bytes \<longrightarrow>
                  feed parse chunks readerInit = ([OnMessage v], readerInit))"
proof (intro exI conjI allI impI)
  show "encodeMessage stringify v = Inr (writeUInt32LE (length (stringify v)) @ stringify v)"
    using size by (simp add: encodeMessage_def Let_def)
next
  fix chunks :: "byte list list"
  assume cut: "concat chunks = writeUInt32LE (length (stringify v)) @ stringify v"
  have "stateAfter [] (length (stringify v)) = readerInit"
    by (simp add: stateAfter_def readerInit_def)
  moreover have "feed parse chunks (stateAfter [] (length (stringify v))) = ([OnMessage v], readerInit)"
    by (rule feed_prefix[where body="stringify v" and parse=parse and v=v, OF size json])
       (simp_all add: cut)
  ultimately show "feed parse chunks readerInit = ([OnMessage v], readerInit)" by simp
qed

theorem framing_roundtrip_witness:
  "length (demoStringify (JStr ''{}'')) \<le> MAX_MESSAGE_SIZE
   \<and> demoParseBytes (demoStringify (JStr ''{}'')) = Inr (JStr ''{}'')
   \<and> encodeMessage demoStringify (JStr ''{}'') = Inr [2, 0, 0, 0, 123, 125]
   \<and> feed demoParseBytes [[2, 0], [0, 0, 123], [], [125]] readerInit
       = ([OnMessage (JStr ''{}'')], readerInit)"
proof -
  have size: "length (demoStringify (JStr ''{}'')) \<le> MAX_MESSAGE_SIZE"
    by (simp add: demoStringify_def MAX_MESSAGE_SIZE_def)
  have json: "demoParseBytes (demoStringify (JStr ''{}'')) = Inr (JStr ''{}'')"
    by code_simp
  have enc: "encodeMessage demoStringify (JStr ''{}'') = Inr [2, 0, 0, 0, 123, 125]"
    by (simp add: encodeMessage_def demoStringify_def MAX_MESSAGE_SIZE_def writeUInt32LE_def)
  from framing_roundtrip [where stringify=demoStringify and parse=demoParseBytes
                            and v="JStr ''{}''", OF size json] enc
  have "\<forall>chunks. concat chunks = [2, 0, 0, 0, 123, 125] \<longrightarrow>
          feed demoParseBytes chunks readerInit = ([OnMessage (JStr ''{}'')], readerInit)"
    by simp
  from this [rule_format, of "[[2, 0], [0, 0, 123], [], [125]]"]
  have "feed demoParseBytes [[2, 0], [0, 0, 123], [], [125]] readerInit
               = ([OnMessage (JStr ''{}'')], readerInit)"
    by (simp del: feed.simps)
  with size json enc show ?thesis by simp
qed


section \<open>Server: timeouts\<close>





lemma answers_clearPending [simp]: "answers c (clearPending rid s) = answers c s"
  by (simp add: answers_def clearPending_def)























lemma pendingDemo_fields:
  "pendingRequests pendingDemo = [(''r1'', clickClosure)]"
  "armedTimers pendingDemo = [(''r1'', clickClosure)]"
  "responses pendingDemo = []"
  "extensionSocket pendingDemo = Some 1"
  "destroyed pendingDemo = []"
  "errorListeners pendingDemo = [(1, ''r1'')]"
  by (simp_all add: pendingDemo_def callExtensionTool_def serverIdle_def isExtensionConnected_def
        HEARTBEAT_STALENESS_MS_def getDefaultAgentId_def Let_def toolTimeoutOf_def
        MCP_TOOL_TIMEOUT_def clickClosure_def)

































section \<open>Access denied, end to end\<close>

lemma startsWith_append: "startsWith (p @ b) p"
  by (induction p) simp_all

lemma includes_suffix: "str_includes s p \<Longrightarrow> str_includes (a @ s) p"
  by (induction a) simp_all

lemma includes_here: "str_includes (p @ b) p"
proof (cases p)
  case Nil
  then show ?thesis by (cases b) simp_all
next
  case (Cons x ps)
  then show ?thesis using startsWith_append[of p b] by simp
qed

lemma includes_mid: "str_includes (a @ p @ b) p"
  by (rule includes_suffix) (rule includes_here)

lemma infer_access_denied:
  "inferErrorCode (accessDeniedMessage tabId aid) = ''TAB_ACCESS_DENIED''"
proof -
  have "accessDeniedMessage tabId aid
          = (''Tab '' @ js_String tabId @ '' '') @ ''does not belong to agent'' @ ('' '' @ aid)"
    by (simp add: accessDeniedMessage_def)
  then have "str_includes (accessDeniedMessage tabId aid) ''does not belong to agent''"
    by (simp only: includes_mid)
  then show ?thesis by (simp only: inferErrorCode_def if_True)
qed

lemma get_has: "js_get v k = JNum n \<Longrightarrow> js_has v k"
  by (cases v) (auto split: option.splits)

lemma click_denied:
  assumes "\<not> isTabInAgentGroup g aid (js_get input ''tabId'')"
  shows "handleClick br g aid input = ([], Inl (accessDeniedMessage (js_get input ''tabId'') aid))"
  using assms by (simp add: handleClick_def tabAccessCheck_def)

lemma worker_denied:
  assumes tab: "js_get input ''tabId'' = JNum n" "0 \<le> n"
    and foreign: "\<not> isTabInAgentGroup (agentGroups w) aid (JNum n)"
    and free: "tabLocks w n = None"
  shows "handleToolCall now br others w aid ''click'' input =
           (Failure ''TAB_ACCESS_DENIED'' (accessDeniedMessage (JNum n) aid), w, [])"
proof -
  have d: "dispatchTool br others w' aid ''click'' input =
             (([], Inl (accessDeniedMessage (JNum n) aid)), w')"
    if "agentGroups w' = agentGroups w" for w'
    using tab foreign that get_has[OF tab(1)]
    by (simp add: dispatchTool_def invalidTabId_def click_denied)
  have a: "acquireTabLock now aid n DEFAULT_TTL (tabLocks w) =
             (True, (tabLocks w)(n \<mapsto> \<lparr>lock_tabId = n, lock_agentId = aid, acquiredAt = now, ttl = DEFAULT_TTL\<rparr>))"
    using free by (simp add: acquireTabLock_def)
  have r: "releaseTabLock aid n ((tabLocks w)(n \<mapsto> \<lparr>lock_tabId = n, lock_agentId = aid, acquiredAt = now, ttl = DEFAULT_TTL\<rparr>))
             = tabLocks w"
    using free by (auto simp add: releaseTabLock_def)
  show ?thesis
    using tab(1) by (simp add: handleToolCall_def checkPermission_def CDP_TOOLS_def a d r infer_access_denied)
qed

lemma reject_fields:
  "responses (pendingReject rid cl m s) = responses s @ [(cl_call cl, errorContent ''CDP_ERROR'' m)]"
  by (simp add: pendingReject_def removeErrorListener_def Let_def)

lemma server_failure:
  assumes pend: "map_of (pendingRequests s) rid = Some cl" and rid: "rid \<noteq> []"
  shows "handleExtensionMessage now u (toolResultRecord rid aid t (Failure code message)) s
           = pendingReject rid cl (''['' @ code @ ''] '' @ message) (clearPending rid s)"
  using assms by (simp add: handleExtensionMessage_def onToolResult_def toolResultRecord_def Let_def)

text \<open>
  Claim C1, as stated, fails: the agent \<open>default\<close> owns tab 1 only and clicks on tab 99. The
  worker fails with \<open>TAB_ACCESS_DENIED\<close>, and the server resolves the client's call with the
  code \<open>CDP_ERROR\<close>; the worker's code survives only inside the message.
\<close>

theorem access_denied_code_counterexample:
  "handleToolCall 15 demoBrowser demoOthers accessDemo ''default'' ''click'' (JObj [(''tabId'', JNum 99)])
     = (Failure ''TAB_ACCESS_DENIED'' ''Tab 99 does not belong to agent default'', accessDemo, [])
   \<and> responses (handleExtensionMessage 16 ''u2''
                  (toolResultRecord ''r1'' ''default'' 15
                     (Failure ''TAB_ACCESS_DENIED'' ''Tab 99 does not belong to agent default''))
                  pendingDemo)
     = [(0, JObj [(''error'', JObj [(''code'', JStr ''CDP_ERROR''),
                                    (''message'', JStr ''[TAB_ACCESS_DENIED] Tab 99 does not belong to agent default'')])])]"
proof -
  have "handleToolCall 15 demoBrowser demoOthers accessDemo ''default'' ''click'' (JObj [(''tabId'', JNum 99)])
     = (Failure ''TAB_ACCESS_DENIED'' (accessDeniedMessage (JNum 99) ''default''), accessDemo, [])"
    by (rule worker_denied) (simp_all add: accessDemo_def isTabInAgentGroup_def)
  moreover have "accessDeniedMessage (JNum 99) ''default'' = ''Tab 99 does not belong to agent default''"
    by (simp add: accessDeniedMessage_def showInt_def digitChar_def)
  moreover have "responses (handleExtensionMessage 16 ''u2''
                  (toolResultRecord ''r1'' ''default'' 15
                     (Failure ''TAB_ACCESS_DENIED'' ''Tab 99 does not belong to agent default''))
                  pendingDemo)
     = responses pendingDemo @ [(cl_call clickClosure, errorContent ''CDP_ERROR''
          (''['' @ ''TAB_ACCESS_DENIED'' @ ''] '' @ ''Tab 99 does not belong to agent default''))]"
    by (simp add: server_failure[where cl=clickClosure] pendingDemo_fields reject_fields clearPending_def)
  ultimately show ?thesis
    by (simp add: pendingDemo_fields clickClosure_def errorContent_def)
qed

text \<open>
  Claim C1, amended. For every tool call whose worker-side handler fails with error code
  \<open>TAB_ACCESS_DENIED\<close> (for example a \<open>click\<close> on an unlocked tab that is not in the calling
  agent's group), the tool result returned to the client is \<open>content: [{type: 'text', text}]\<close>
  where \<open>text\<close> parses to \<open>{error: {code, message}}\<close> with \<open>code\<close> equal to \<open>CDP_ERROR\<close> and
  \<open>message\<close> equal to \<open>[TAB_ACCESS_DENIED]\<close>, a space, and the worker's message.
\<close>

theorem access_denied_surfaces_as_cdp_error:
  assumes pend: "map_of (pendingRequests s) rid = Some cl" and rid: "rid \<noteq> []"
  shows "responses (handleExtensionMessage now u
                      (toolResultRecord rid aid t (Failure ''TAB_ACCESS_DENIED'' message)) s)
           = responses s @ [(cl_call cl, errorContent ''CDP_ERROR'' (''[TAB_ACCESS_DENIED] '' @ message))]
       \<and> (js_get input ''tabId'' = JNum n \<and> 0 \<le> n \<and> \<not> isTabInAgentGroup (agentGroups w) aid (JNum n)
            \<and> tabLocks w n = None \<longrightarrow>
            handleToolCall t br others w aid ''click'' input =
              (Failure ''TAB_ACCESS_DENIED'' (accessDeniedMessage (JNum n) aid), w, []))"
proof (intro conjI impI)
  show "responses (handleExtensionMessage now u
                      (toolResultRecord rid aid t (Failure ''TAB_ACCESS_DENIED'' message)) s)
           = responses s @ [(cl_call cl, errorContent ''CDP_ERROR'' (''[TAB_ACCESS_DENIED] '' @ message))]"
    by (simp add: server_failure[OF pend rid] reject_fields clearPending_def)
next
  assume "js_get input ''tabId'' = JNum n \<and> 0 \<le> n \<and> \<not> isTabInAgentGroup (agentGroups w) aid (JNum n)
            \<and> tabLocks w n = None"
  then show "handleToolCall t br others w aid ''click'' input =
              (Failure ''TAB_ACCESS_DENIED'' (accessDeniedMessage (JNum n) aid), w, [])"
    by (simp add: worker_denied)
qed

theorem access_denied_surfaces_as_cdp_error_witness:
  "responses (handleExtensionMessage 16 ''u2''
                (toolResultRecord ''r1'' ''default'' 15
                   (Failure ''TAB_ACCESS_DENIED'' ''Tab 99 does not belong to agent default''))
                pendingDemo)
     = [(0, errorContent ''CDP_ERROR'' ''[TAB_ACCESS_DENIED] Tab 99 does not belong to agent default'')]
   \<and> handleToolCall 15 demoBrowser demoOthers accessDemo ''default'' ''click'' (JObj [(''tabId'', JNum 99)])
     = (Failure ''TAB_ACCESS_DENIED'' ''Tab 99 does not belong to agent default'', accessDemo, [])"
proof -
  have pend: "map_of (pendingRequests pendingDemo) ''r1'' = Some clickClosure"
    by (simp add: pendingDemo_fields)
  have rid: "''r1'' \<noteq> []" by simp
  have w: "js_get (JObj [(''tabId'', JNum 99)]) ''tabId'' = JNum 99 \<and> (0::int) \<le> 99
           \<and> \<not> isTabInAgentGroup (agentGroups accessDemo) ''default'' (JNum 99)
           \<and> tabLocks accessDemo 99 = None"
    by (simp add: accessDemo_def isTabInAgentGroup_def)
  have sh: "accessDeniedMessage (JNum 99) ''default'' = ''Tab 99 does not belong to agent default''"
    by (simp add: accessDeniedMessage_def showInt_def digitChar_def)
  from access_denied_surfaces_as_cdp_error [OF pend rid, of 16 "''u2''" "''default''" 15
      "''Tab 99 does not belong to agent default''" "JObj [(''tabId'', JNum 99)]" 99 accessDemo
      demoBrowser demoOthers] w sh
  show ?thesis by (simp add: pendingDemo_fields clickClosure_def)
qed


section \<open>Server: replacing the extension connection\<close>













section \<open>Worker: the element reference guard\<close>

lemma infer_never_invalid_params: "inferErrorCode m \<noteq> ''INVALID_PARAMS''"
  unfolding inferErrorCode_def
  by (simp only: if_distrib[of "\<lambda>x. x \<noteq> ''INVALID_PARAMS''"] list.inject char.inject if_cancel
         simp_thms split: if_splits)

lemma sanitize_bad: "\<not> REF_PATTERN_test r \<Longrightarrow> sanitizeRef (JStr r) = Inl (invalidRefMessage (JStr r))"
  by (simp add: sanitizeRef_def)

lemma formInput_bad_ref:
  assumes "js_get input ''ref'' = JStr r" "\<not> REF_PATTERN_test r"
  shows "handleFormInput br g aid input = ([], Inl (invalidRefMessage (JStr r)))"
  using assms by (simp add: handleFormInput_def sanitize_bad)

lemma click_bad_ref:
  assumes "js_get input ''ref'' = JStr r" "\<not> REF_PATTERN_test r" "r \<noteq> []"
  shows "handleClick br g aid input =
           (if isTabInAgentGroup g aid (js_get input ''tabId'')
              then ([], Inl (invalidRefMessage (JStr r)))
            else ([], Inl (accessDeniedMessage (js_get input ''tabId'') aid)))"
  using assms by (simp add: handleClick_def tabAccessCheck_def sanitize_bad)

lemma scroll_bad_ref:
  assumes "js_get input ''ref'' = JStr r" "\<not> REF_PATTERN_test r" "r \<noteq> []"
  shows "handleScroll br g aid input =
           (if isTabInAgentGroup g aid (js_get input ''tabId'')
              then ([], Inl (invalidRefMessage (JStr r)))
            else ([], Inl (accessDeniedMessage (js_get input ''tabId'') aid)))"
  using assms by (simp add: handleScroll_def tabAccessCheck_def sanitize_bad)

lemma readPage_bad_ref:
  assumes "js_get input ''refId'' = JStr r" "\<not> REF_PATTERN_test r" "r \<noteq> []"
  shows "handleReadPage br g aid input =
           (if isTabInAgentGroup g aid (js_get input ''tabId'')
              then ([], Inl (invalidRefMessage (JStr r)))
            else ([], Inl (accessDeniedMessage (js_get input ''tabId'') aid)))"
  using assms by (simp add: handleReadPage_def tabAccessCheck_def sanitize_bad)

lemma upload_bad_ref:
  assumes "js_get input ''ref'' = JStr r" "\<not> REF_PATTERN_test r" "r \<noteq> []"
  shows "handleUploadImage br store g aid input =
           (if \<not> isTabInAgentGroup g aid (js_get input ''tabId'')
              then ([], Inl (accessDeniedMessage (js_get input ''tabId'') aid))
            else if asString (orElse (js_get input ''filename'') (JStr ''image.png'')) = None
              then ([], Inl ''filename.endsWith is not a function'')
            else ([], Inl (invalidRefMessage (JStr r))))"
  using assms
  by (simp add: handleUploadImage_def tabAccessCheck_def sanitize_bad Let_def split: option.splits)

lemma ref_tools: "carriesBadRef tool input r \<Longrightarrow>
    tool = ''click'' \<or> tool = ''scroll'' \<or> tool = ''read_page'' \<or> tool = ''form_input'' \<or> tool = ''upload_image''"
  by (simp add: carriesBadRef_def) (elim conjE disjE, simp_all)

lemma bad_click: "carriesBadRef ''click'' input r \<Longrightarrow>
    js_get input ''ref'' = JStr r \<and> \<not> REF_PATTERN_test r \<and> r \<noteq> []"
  by (simp add: carriesBadRef_def)

lemma bad_scroll: "carriesBadRef ''scroll'' input r \<Longrightarrow>
    js_get input ''ref'' = JStr r \<and> \<not> REF_PATTERN_test r \<and> r \<noteq> []"
  by (simp add: carriesBadRef_def)

lemma bad_upload: "carriesBadRef ''upload_image'' input r \<Longrightarrow>
    js_get input ''ref'' = JStr r \<and> \<not> REF_PATTERN_test r \<and> r \<noteq> []"
  by (simp add: carriesBadRef_def)

lemma bad_page: "carriesBadRef ''read_page'' input r \<Longrightarrow>
    js_get input ''refId'' = JStr r \<and> \<not> REF_PATTERN_test r \<and> r \<noteq> []"
  by (simp add: carriesBadRef_def)

lemma bad_form: "carriesBadRef ''form_input'' input r \<Longrightarrow>
    js_get input ''ref'' = JStr r \<and> \<not> REF_PATTERN_test r"
  by (simp add: carriesBadRef_def)

lemma dispatch_click:
  "\<not> (js_has input ''tabId'' \<and> invalidTabId (js_get input ''tabId'')) \<Longrightarrow>
   dispatchTool br others w aid ''click'' input = (handleClick br (agentGroups w) aid input, w)"
  by (cases "js_has input ''tabId''") (simp_all add: dispatchTool_def)

lemma dispatch_scroll:
  "\<not> (js_has input ''tabId'' \<and> invalidTabId (js_get input ''tabId'')) \<Longrightarrow>
   dispatchTool br others w aid ''scroll'' input = (handleScroll br (agentGroups w) aid input, w)"
  by (cases "js_has input ''tabId''") (simp_all add: dispatchTool_def)

lemma dispatch_read_page:
  "\<not> (js_has input ''tabId'' \<and> invalidTabId (js_get input ''tabId'')) \<Longrightarrow>
   dispatchTool br others w aid ''read_page'' input = (handleReadPage br (agentGroups w) aid input, w)"
  by (cases "js_has input ''tabId''") (simp_all add: dispatchTool_def)

lemma dispatch_form_input:
  "\<not> (js_has input ''tabId'' \<and> invalidTabId (js_get input ''tabId'')) \<Longrightarrow>
   dispatchTool br others w aid ''form_input'' input = (handleFormInput br (agentGroups w) aid input, w)"
  by (cases "js_has input ''tabId''") (simp_all add: dispatchTool_def)

lemma dispatch_upload_image:
  "\<not> (js_has input ''tabId'' \<and> invalidTabId (js_get input ''tabId'')) \<Longrightarrow>
   dispatchTool br others w aid ''upload_image'' input =
     (handleUploadImage br (screenshotStore w) (agentGroups w) aid input, w)"
  by (cases "js_has input ''tabId''") (simp_all add: dispatchTool_def)

lemma dispatch_bad_ref_valid_tab:
  assumes bad: "carriesBadRef tool input r"
    and ok: "\<not> (js_has input ''tabId'' \<and> invalidTabId (js_get input ''tabId''))"
  shows "dispatchTool br others w aid tool input =
           (([], Inl (if \<not> isTabInAgentGroup (agentGroups w) aid (js_get input ''tabId'')
                          \<and> tool \<noteq> ''form_input''
                        then accessDeniedMessage (js_get input ''tabId'') aid
                      else if tool = ''upload_image''
                          \<and> asString (orElse (js_get input ''filename'') (JStr ''image.png'')) = None
                        then ''filename.endsWith is not a function''
                      else invalidRefMessage (JStr r))), w)"
  using ref_tools[OF bad]
proof (elim disjE)
  assume t: "tool = ''click''"
  from bad_click[OF bad[unfolded t]] show ?thesis
    unfolding t dispatch_click[OF ok] by (simp add: click_bad_ref)
next
  assume t: "tool = ''scroll''"
  from bad_scroll[OF bad[unfolded t]] show ?thesis
    unfolding t dispatch_scroll[OF ok] by (simp add: scroll_bad_ref)
next
  assume t: "tool = ''read_page''"
  from bad_page[OF bad[unfolded t]] show ?thesis
    unfolding t dispatch_read_page[OF ok] by (simp add: readPage_bad_ref)
next
  assume t: "tool = ''form_input''"
  from bad_form[OF bad[unfolded t]] show ?thesis
    unfolding t dispatch_form_input[OF ok] by (simp add: formInput_bad_ref)
next
  assume t: "tool = ''upload_image''"
  from bad_upload[OF bad[unfolded t]] show ?thesis
    unfolding t dispatch_upload_image[OF ok] by (simp add: upload_bad_ref)
qed

lemma dispatch_bad_ref:
  assumes "carriesBadRef tool input r"
  shows "\<exists>m. dispatchTool br others w aid tool input = (([], Inl m), w)"
proof (cases "js_has input ''tabId'' \<and> invalidTabId (js_get input ''tabId'')")
  case True
  then show ?thesis by (simp add: dispatchTool_def)
next
  case False
  show ?thesis unfolding dispatch_bad_ref_valid_tab[OF assms False] by blast
qed

lemma dispatch_bad_ref_owned:
  assumes bad: "carriesBadRef tool input r"
    and tab: "js_get input ''tabId'' = JNum n" "0 \<le> n" "isTabInAgentGroup (agentGroups w) aid (JNum n)"
    and fname: "tool = ''upload_image'' \<longrightarrow>
                  asString (orElse (js_get input ''filename'') (JStr ''image.png'')) \<noteq> None"
  shows "dispatchTool br others w aid tool input = (([], Inl (invalidRefMessage (JStr r))), w)"
proof -
  have ok: "\<not> (js_has input ''tabId'' \<and> invalidTabId (js_get input ''tabId''))"
    using tab by (simp add: invalidTabId_def)
  show ?thesis
    unfolding dispatch_bad_ref_valid_tab[OF bad ok] using tab fname by auto
qed

lemma handle_failing_dispatch:
  assumes "\<And>w'. \<exists>m. dispatchTool br others w' aid tool input = (([], Inl m), w')"
  shows "\<exists>code message w'. handleToolCall now br others w aid tool input = (Failure code message, w', [])
           \<and> (code = ''TAB_LOCKED'' \<or> code = inferErrorCode message)"
proof (cases "isNumber (js_get input ''tabId'') \<and> tool \<in> set CDP_TOOLS")
  case False
  obtain m where "dispatchTool br others w aid tool input = (([], Inl m), w)" using assms by blast
  then show ?thesis using False by (auto simp add: handleToolCall_def checkPermission_def)
next
  case True
  then obtain n where n: "js_get input ''tabId'' = JNum n" by (cases "js_get input ''tabId''") simp_all
  obtain ok locks1 where a: "acquireTabLock now aid n DEFAULT_TTL (tabLocks w) = (ok, locks1)"
    by (cases "acquireTabLock now aid n DEFAULT_TTL (tabLocks w)")
  show ?thesis
  proof (cases ok)
    case False
    then show ?thesis using True n a by (simp add: handleToolCall_def checkPermission_def)
  next
    case ok: True
    obtain m where "dispatchTool br others (w\<lparr>tabLocks := locks1\<rparr>) aid tool input
                      = (([], Inl m), w\<lparr>tabLocks := locks1\<rparr>)"
      using assms by blast
    then show ?thesis using True n a ok by (simp add: handleToolCall_def checkPermission_def)
  qed
qed

lemma handle_exact_dispatch:
  assumes d: "\<And>w'. agentGroups w' = agentGroups w \<Longrightarrow> screenshotStore w' = screenshotStore w \<Longrightarrow>
                dispatchTool br others w' aid tool input = (([], Inl m), w')"
    and tab: "js_get input ''tabId'' = JNum n" and free: "tabLocks w n = None"
  shows "handleToolCall now br others w aid tool input = (Failure (inferErrorCode m) m, w, [])"
proof (cases "tool \<in> set CDP_TOOLS")
  case False
  then show ?thesis using d[of w] by (simp add: handleToolCall_def checkPermission_def)
next
  case True
  let ?l = "\<lparr>lock_tabId = n, lock_agentId = aid, acquiredAt = now, ttl = DEFAULT_TTL\<rparr>"
  have acq: "acquireTabLock now aid n DEFAULT_TTL (tabLocks w) = (True, (tabLocks w)(n \<mapsto> ?l))"
    using free by (simp add: acquireTabLock_def)
  have rel: "releaseTabLock aid n ((tabLocks w)(n \<mapsto> ?l)) = tabLocks w"
    using free by (auto simp add: releaseTabLock_def)
  have d': "dispatchTool br others (w\<lparr>tabLocks := (tabLocks w)(n \<mapsto> ?l)\<rparr>) aid tool input
              = (([], Inl m), w\<lparr>tabLocks := (tabLocks w)(n \<mapsto> ?l)\<rparr>)"
    by (rule d) simp_all
  show ?thesis
    using True tab by (simp add: handleToolCall_def checkPermission_def acq d' rel)
qed

text \<open>
  Claim C2, as stated, fails: a \<open>form_input\<close> call with the reference \<open>bad\<close> on the agent's
  own tab is rejected before any browser call, but with the code \<open>INTERNAL_ERROR\<close>.
\<close>

theorem invalid_ref_code_counterexample:
  "\<not> REF_PATTERN_test ''bad''
   \<and> handleToolCall 15 demoBrowser demoOthers accessDemo ''default'' ''form_input''
        (JObj [(''tabId'', JNum 1), (''ref'', JStr ''bad''), (''value'', JStr ''x'')])
      = (Failure ''INTERNAL_ERROR'' ''Invalid element ref format: bad'', accessDemo, [])"
proof -
  have bad: "\<not> REF_PATTERN_test ''bad''"
    by (simp add: REF_PATTERN_test_def matchRefDigits_def)
  have m: "invalidRefMessage (JStr ''bad'') = ''Invalid element ref format: bad''"
    by (simp add: invalidRefMessage_def)
  have c: "inferErrorCode ''Invalid element ref format: bad'' = ''INTERNAL_ERROR''"
    by (simp add: inferErrorCode_def)
  have d: "dispatchTool demoBrowser demoOthers w' ''default'' ''form_input''
             (JObj [(''tabId'', JNum 1), (''ref'', JStr ''bad''), (''value'', JStr ''x'')])
           = (([], Inl ''Invalid element ref format: bad''), w')" for w'
    using bad by (simp add: dispatchTool_def invalidTabId_def formInput_bad_ref m)
  have "handleToolCall 15 demoBrowser demoOthers accessDemo ''default'' ''form_input''
        (JObj [(''tabId'', JNum 1), (''ref'', JStr ''bad''), (''value'', JStr ''x'')])
      = (Failure ''INTERNAL_ERROR'' ''Invalid element ref format: bad'', accessDemo, [])"
    by (simp add: handleToolCall_def checkPermission_def CDP_TOOLS_def acquireTabLock_def
          releaseTabLock_def DEFAULT_TTL_def accessDemo_def d c)
  with bad show ?thesis by simp
qed

text \<open>
  Claim C2, amended. For every inbound tool call that carries an element reference not
  matching \<open>^(find_|page_)?ref_\d+$\<close> (the \<open>ref\<close> of \<open>form_input\<close>, a non-empty \<open>ref\<close> of
  \<open>click\<close>, \<open>scroll\<close> or \<open>upload_image\<close>, a non-empty \<open>refId\<close> of \<open>read_page\<close>), the worker
  returns a failed tool result without having made any DOM, CDP or content-script call,
  and its error code is never \<open>INVALID_PARAMS\<close>. When the tab is a valid, unlocked tab of
  the calling agent's group (and, for \<open>upload_image\<close>, the file name is a string or absent),
  the message is \<open>Invalid element ref format: \<close> followed by the reference, and the code is
  the one \<open>inferErrorCode\<close> derives from that message.
\<close>

theorem invalid_ref_rejected_before_browser:
  assumes bad: "carriesBadRef tool input r"
  shows "(\<exists>code message w'.
            handleToolCall now br others w aid tool input = (Failure code message, w', [])
            \<and> code \<noteq> ''INVALID_PARAMS'')
       \<and> (js_get input ''tabId'' = JNum n \<and> 0 \<le> n \<and> isTabInAgentGroup (agentGroups w) aid (JNum n)
            \<and> tabLocks w n = None
            \<and> (tool = ''upload_image'' \<longrightarrow>
                  asString (orElse (js_get input ''filename'') (JStr ''image.png'')) \<noteq> None) \<longrightarrow>
            handleToolCall now br others w aid tool input =
              (Failure (inferErrorCode (invalidRefMessage (JStr r))) (invalidRefMessage (JStr r)), w, []))"
proof (intro conjI impI)
  from handle_failing_dispatch[of br others aid tool input now w] dispatch_bad_ref[OF bad]
  obtain code message w' where
    h: "handleToolCall now br others w aid tool input = (Failure code message, w', [])"
       "code = ''TAB_LOCKED'' \<or> code = inferErrorCode message"
    by blast
  have "code \<noteq> ''INVALID_PARAMS''"
  proof (cases "code = ''TAB_LOCKED''")
    case True
    then show ?thesis by simp
  next
    case False
    with h(2) have "code = inferErrorCode message" by simp
    then show ?thesis by (simp only: infer_never_invalid_params not_False_eq_True)
  qed
  with h(1) show "\<exists>code message w'.
            handleToolCall now br others w aid tool input = (Failure code message, w', [])
            \<and> code \<noteq> ''INVALID_PARAMS''" by blast
next
  assume a: "js_get input ''tabId'' = JNum n \<and> 0 \<le> n \<and> isTabInAgentGroup (agentGroups w) aid (JNum n)
            \<and> tabLocks w n = None
            \<and> (tool = ''upload_image'' \<longrightarrow>
                  asString (orElse (js_get input ''filename'') (JStr ''image.png'')) \<noteq> None)"
  have d: "dispatchTool br others w' aid tool input = (([], Inl (invalidRefMessage (JStr r))), w')"
    if "agentGroups w' = agentGroups w" "screenshotStore w' = screenshotStore w" for w'
    by (rule dispatch_bad_ref_owned[OF bad, where n=n]) (use a that in simp_all)
  show "handleToolCall now br others w aid tool input =
              (Failure (inferErrorCode (invalidRefMessage (JStr r))) (invalidRefMessage (JStr r)), w, [])"
    by (rule handle_exact_dispatch[where n=n]) (use a d in simp_all)
qed

theorem invalid_ref_rejected_before_browser_witness:
  "carriesBadRef ''click'' (JObj [(''tabId'', JNum 1), (''ref'', JStr ''div > a'')]) ''div > a''
   \<and> (\<exists>code message w'.
      handleToolCall 15 demoBrowser demoOthers accessDemo ''default'' ''click''
        (JObj [(''tabId'', JNum 1), (''ref'', JStr ''div > a'')]) = (Failure code message, w', [])
      \<and> code \<noteq> ''INVALID_PARAMS'')
   \<and> handleToolCall 15 demoBrowser demoOthers accessDemo ''default'' ''click''
        (JObj [(''tabId'', JNum 1), (''ref'', JStr ''div > a'')])
      = (Failure (inferErrorCode (invalidRefMessage (JStr ''div > a'')))
                 (invalidRefMessage (JStr ''div > a'')), accessDemo, [])"
proof -
  have bad: "carriesBadRef ''click'' (JObj [(''tabId'', JNum 1), (''ref'', JStr ''div > a'')]) ''div > a''"
    by (simp add: carriesBadRef_def REF_PATTERN_test_def matchRefDigits_def)
  have own: "js_get (JObj [(''tabId'', JNum 1), (''ref'', JStr ''div > a'')]) ''tabId'' = JNum 1
             \<and> (0::int) \<le> 1 \<and> isTabInAgentGroup (agentGroups accessDemo) ''default'' (JNum 1)
             \<and> tabLocks accessDemo 1 = None
             \<and> (''click'' = ''upload_image'' \<longrightarrow>
                  asString (orElse (js_get (JObj [(''tabId'', JNum 1), (''ref'', JStr ''div > a'')]) ''filename'')
                                   (JStr ''image.png'')) \<noteq> None)"
    by (simp add: accessDemo_def isTabInAgentGroup_def)
  note t = invalid_ref_rejected_before_browser [OF bad, where now=15 and br=demoBrowser
      and others=demoOthers and w=accessDemo and aid="''default''" and n=1]
  show ?thesis
    by (intro conjI, rule bad, rule t [THEN conjunct1], rule mp [OF t [THEN conjunct2] own])
qed

end
